theory Spec2Isabelle
  imports Main "HOL-Library.Multiset"
begin

section \<open>The guestbook server (server/index.js)\<close>

subsection \<open>Values of a request body\<close>

text \<open>
  A field of \<open>req.body\<close> comes from a multipart form (a string) or from a JSON body
  (any JSON value); an absent field reads as \<open>undefined\<close>. The model has the primitive
  values and arrays; a \<open>string\<close> stands for a JavaScript string with one \<open>char\<close> per
  code unit, and a number is an integer (only whether it is zero matters to the handlers).
  Objects other than arrays are outside the model.
\<close>

datatype jsval =
    JUndefined
  | JNull
  | JBool bool
  | JNum int
  | JStr string
  | JArr "jsval list"

text \<open>\<open>!v\<close> is \<open>\<not> truthy v\<close>.\<close>

fun truthy :: "jsval \<Rightarrow> bool" where
  "truthy JUndefined = False"
| "truthy JNull = False"
| "truthy (JBool b) = b"
| "truthy (JNum n) = (n \<noteq> 0)"
| "truthy (JStr s) = (s \<noteq> [])"
| "truthy (JArr xs) = True"

text \<open>
  \<open>v.length > n\<close> for a truthy \<open>v\<close>: a string and an array have a length; on a boolean
  or a number the property is \<open>undefined\<close> and the comparison is false. The handler
  reads the property only after \<open>!v\<close> has excluded \<open>undefined\<close> and \<open>null\<close>.
\<close>

fun length_gt :: "jsval \<Rightarrow> nat \<Rightarrow> bool" where
  "length_gt (JStr s) n = (length s > n)"
| "length_gt (JArr xs) n = (length xs > n)"
| "length_gt v n = False"

subsection \<open>The table, the media store and the console\<close>

text \<open>A row of \<open>guestbook_entries\<close> (db/init.sql), holding the values the INSERT binds.\<close>

record entry =
  c_id :: nat
  c_name :: jsval
  c_note :: jsval
  c_photos :: "string list"
  c_approved :: bool
  c_created_at :: int

text \<open>The columns the public SELECT lists: \<open>id, name, note, photos, created_at\<close>.\<close>

record public_entry =
  p_id :: nat
  p_name :: jsval
  p_note :: jsval
  p_photos :: "string list"
  p_created_at :: int

text \<open>A file as multer's memory storage hands it over; \<open>file.size\<close> is the buffer's length.\<close>

record upfile =
  originalname :: string
  mimetype :: string
  buffer :: "nat list"

datatype log_event =
    LogProcessing nat
  | LogNotConfigured
  | LogUploading string nat
  | LogUploadSuccess string
  | LogUploadFailed
  | LogError string

text \<open>
  The state the handlers act on: the table in insertion order, the next value of the
  \<open>SERIAL\<close> sequence, every call made to the media store with its outcome, and the
  console.
\<close>

record world =
  table :: "entry list"
  next_id :: nat
  cloud_calls :: "(nat list \<times> string option) list"
  console :: "log_event list"

text \<open>
  What lies outside the process, per request: the configuration read at start-up, whether
  the database accepts and answers the query of this request (it refuses, for one, a text
  with a NUL character), the database clock, and the outcome of
  the call to the media store on a buffer that follows k earlier calls (\<open>None\<close>: the
  upload callback reports an error, \<open>Some url\<close>: \<open>result.secure_url\<close>).
\<close>

record env =
  cloudinaryConfigured :: bool
  ADMIN_PASSWORD :: "string option"
  db_up :: bool
  now :: int
  upload_stream :: "nat \<Rightarrow> nat list \<Rightarrow> string option"

text \<open>
  A request: the error multer's \<open>upload.array('photos', 5)\<close> reports, if any, as code and
  message; the fields the handlers read of \<open>req.body\<close>, which is an object as
  \<open>express.json()\<close> and multer leave it; \<open>req.files\<close> (absent when the request is not
  multipart); the \<open>x-admin-password\<close> header; and the \<open>:id\<close> path parameter as the
  database reads it for \<open>id = $1\<close> (\<open>None\<close>: not an integer, the query throws).
\<close>

record request =
  multer_err :: "(string \<times> string) option"
  body_name :: jsval
  body_note :: jsval
  body_private :: jsval
  body_approved :: jsval
  files :: "upfile list option"
  x_admin_password :: "string option"
  params_id :: "int option"

datatype reply =
    Submitted string nat jsval int
  | Entries "public_entry list"
  | AdminEntries "entry list"
  | Updated nat jsval bool
  | Deleted
  | Error nat string

definition say :: "log_event \<Rightarrow> world \<Rightarrow> world" where
  "say ev w = w\<lparr>console := console w @ [ev]\<rparr>"

subsection \<open>POST /api/entries\<close>

text \<open>\<open>uploadToCloudinary(buffer, mimetype)\<close>: the mimetype is not used.\<close>

definition uploadToCloudinary :: "env \<Rightarrow> nat list \<Rightarrow> string \<Rightarrow> world \<Rightarrow> string option \<times> world" where
  "uploadToCloudinary ev buf mt w =
     (let r = upload_stream ev (length (cloud_calls w)) buf
      in (r, w\<lparr>cloud_calls := cloud_calls w @ [(buf, r)]\<rparr>))"

text \<open>The loop \<open>for (const file of req.files)\<close>, with \<open>photos\<close> as accumulator.\<close>

fun upload_files :: "env \<Rightarrow> upfile list \<Rightarrow> string list \<Rightarrow> world \<Rightarrow> string list \<times> world" where
  "upload_files ev [] photos w = (photos, w)"
| "upload_files ev (file # rest) photos w =
     (let w1 = say (LogUploading (originalname file) (length (buffer file))) w;
          (r, w2) = uploadToCloudinary ev (buffer file) (mimetype file) w1
      in case r of
           Some url \<Rightarrow> upload_files ev rest (photos @ [url]) (say (LogUploadSuccess url) w2)
         | None \<Rightarrow> upload_files ev rest photos (say LogUploadFailed w2))"

definition upload_photos :: "env \<Rightarrow> request \<Rightarrow> world \<Rightarrow> string list \<times> world" where
  "upload_photos ev req w =
     (case files req of
        None \<Rightarrow> ([], w)
      | Some fs \<Rightarrow>
          if length fs > 0 then
            (let w1 = say (LogProcessing (length fs)) w
             in if \<not> cloudinaryConfigured ev then ([], say LogNotConfigured w1)
                else upload_files ev fs [] w1)
          else ([], w))"

definition isPrivate :: "request \<Rightarrow> bool" where
  "isPrivate req = (body_private req = JStr ''true'')"

text \<open>The INSERT: the sequence gives the id, the database clock the timestamp.\<close>

definition sql_insert :: "env \<Rightarrow> jsval \<Rightarrow> jsval \<Rightarrow> string list \<Rightarrow> bool \<Rightarrow> world \<Rightarrow> (entry \<times> world) option" where
  "sql_insert ev nm nt photos appr w =
     (if db_up ev then
        (let e = \<lparr>c_id = next_id w, c_name = nm, c_note = nt, c_photos = photos,
                  c_approved = appr, c_created_at = now ev\<rparr>
         in Some (e, w\<lparr>table := table w @ [e], next_id := Suc (next_id w)\<rparr>))
      else None)"

definition submit :: "env \<Rightarrow> request \<Rightarrow> world \<Rightarrow> reply \<times> world" where
  "submit ev req w =
     (let name = body_name req; note = body_note req in
      if \<not> truthy name \<or> \<not> truthy note then (Error 400 ''Name and note are required'', w)
      else if length_gt name 120 then (Error 400 ''Name must be 120 characters or less'', w)
      else
        (let (photos, w1) = upload_photos ev req w;
             approved = \<not> isPrivate req
         in case sql_insert ev name note photos approved w1 of
              None \<Rightarrow> (Error 500 ''Failed to submit entry'', say (LogError ''Error submitting entry:'') w1)
            | Some (e, w2) \<Rightarrow>
                (Submitted
                   (if isPrivate req
                    then ''Thank you! Your private message has been sent to the couple.''
                    else ''Thank you for signing the guestbook!'')
                   (c_id e) (c_name e) (c_created_at e), w2)))"

text \<open>The route with its middleware \<open>handleUpload\<close> in front.\<close>

definition handleUpload :: "request \<Rightarrow> reply option" where
  "handleUpload req =
     (case multer_err req of
        Some (code, message) \<Rightarrow>
          if code = ''LIMIT_FILE_SIZE'' then Some (Error 400 ''File too large. Maximum size is 25MB.'')
          else Some (Error 400 (''File upload error: '' @ message))
      | None \<Rightarrow> None)"

definition post_entries :: "env \<Rightarrow> request \<Rightarrow> world \<Rightarrow> reply \<times> world" where
  "post_entries ev req w =
     (case handleUpload req of Some r \<Rightarrow> (r, w) | None \<Rightarrow> submit ev req w)"

subsection \<open>GET /api/entries\<close>

text \<open>
  \<open>ORDER BY created_at DESC\<close>; among rows of equal timestamp the database fixes no order,
  the model keeps the table's.
\<close>

definition order_desc :: "entry list \<Rightarrow> entry list" where
  "order_desc es = sort_key (\<lambda>e. - c_created_at e) es"

definition public_view :: "entry \<Rightarrow> public_entry" where
  "public_view e = \<lparr>p_id = c_id e, p_name = c_name e, p_note = c_note e,
                    p_photos = c_photos e, p_created_at = c_created_at e\<rparr>"

definition get_entries :: "env \<Rightarrow> world \<Rightarrow> reply \<times> world" where
  "get_entries ev w =
     (if db_up ev then (Entries (map public_view (order_desc (filter c_approved (table w)))), w)
      else (Error 500 ''Failed to fetch entries'', say (LogError ''Error fetching entries:'') w))"

subsection \<open>The admin endpoints\<close>

text \<open>\<open>adminAuth\<close>: \<open>Some r\<close> answers the request, \<open>None\<close> is \<open>next()\<close>.\<close>

definition adminAuth :: "env \<Rightarrow> request \<Rightarrow> reply option" where
  "adminAuth ev req =
     (let password = x_admin_password req
      in if password \<noteq> ADMIN_PASSWORD ev then Some (Error 401 ''Unauthorized'') else None)"

definition admin_get_entries :: "env \<Rightarrow> request \<Rightarrow> world \<Rightarrow> reply \<times> world" where
  "admin_get_entries ev req w =
     (case adminAuth ev req of
        Some r \<Rightarrow> (r, w)
      | None \<Rightarrow>
          if db_up ev then (AdminEntries (order_desc (table w)), w)
          else (Error 500 ''Failed to fetch entries'', say (LogError ''Error fetching entries:'') w))"

definition admin_patch_entry :: "env \<Rightarrow> request \<Rightarrow> world \<Rightarrow> reply \<times> world" where
  "admin_patch_entry ev req w =
     (case adminAuth ev req of
        Some r \<Rightarrow> (r, w)
      | None \<Rightarrow>
          (case body_approved req of
             JBool approved \<Rightarrow>
               (case (db_up ev, params_id req) of
                  (True, Some i) \<Rightarrow>
                    (let hit = (\<lambda>e. int (c_id e) = i);
                         w1 = w\<lparr>table := map (\<lambda>e. if hit e then e\<lparr>c_approved := approved\<rparr> else e) (table w)\<rparr>
                     in case filter hit (table w1) of
                          [] \<Rightarrow> (Error 404 ''Entry not found'', w1)
                        | e # _ \<Rightarrow> (Updated (c_id e) (c_name e) (c_approved e), w1))
                | _ \<Rightarrow> (Error 500 ''Failed to update entry'', say (LogError ''Error updating entry:'') w))
           | _ \<Rightarrow> (Error 400 ''approved must be a boolean'', w)))"

definition admin_delete_entry :: "env \<Rightarrow> request \<Rightarrow> world \<Rightarrow> reply \<times> world" where
  "admin_delete_entry ev req w =
     (case adminAuth ev req of
        Some r \<Rightarrow> (r, w)
      | None \<Rightarrow>
          (case (db_up ev, params_id req) of
             (True, Some i) \<Rightarrow>
               (let hit = (\<lambda>e. int (c_id e) = i);
                    w1 = w\<lparr>table := filter (\<lambda>e. \<not> hit e) (table w)\<rparr>
                in case filter hit (table w) of
                     [] \<Rightarrow> (Error 404 ''Entry not found'', w1)
                   | e # _ \<Rightarrow> (Deleted, w1))
           | _ \<Rightarrow> (Error 500 ''Failed to delete entry'', say (LogError ''Error deleting entry:'') w)))"

subsection \<open>Reachable states\<close>

definition initial :: world where
  "initial = \<lparr>table = [], next_id = 1, cloud_calls = [], console = []\<rparr>"

inductive reachable :: "world \<Rightarrow> bool" where
  start: "reachable initial"
| post: "reachable w \<Longrightarrow> reachable (snd (post_entries ev req w))"
| list: "reachable w \<Longrightarrow> reachable (snd (get_entries ev w))"
| admin_list: "reachable w \<Longrightarrow> reachable (snd (admin_get_entries ev req w))"
| patch: "reachable w \<Longrightarrow> reachable (snd (admin_patch_entry ev req w))"
| delete: "reachable w \<Longrightarrow> reachable (snd (admin_delete_entry ev req w))"

section \<open>The archival exporter (the export script and scripts/generate-html.js)\<close>

subsection \<open>Text\<close>

text \<open>\<open>str.replace(/c/g, r)\<close>: every occurrence of the character, left to right.\<close>

definition replace_all :: "char \<Rightarrow> string \<Rightarrow> string \<Rightarrow> string" where
  "replace_all c r str = concat (map (\<lambda>x. if x = c then r else [x]) str)"

definition escapeHtml :: "string \<Rightarrow> string" where
  "escapeHtml str =
     replace_all (CHR 0x22) ''&quot;''
       (replace_all (CHR ''>'') ''&gt;''
          (replace_all (CHR ''<'') ''&lt;''
             (replace_all (CHR ''&'') ''&amp;'' str)))"

text \<open>A number in a template literal: its decimal digits.\<close>

definition digit :: "nat \<Rightarrow> char" where
  "digit d = ''0123456789'' ! d"

function show_nat :: "nat \<Rightarrow> string" where
  "show_nat n = (if n < 10 then [digit n] else show_nat (n div 10) @ [digit (n mod 10)])"
  by pat_completeness auto
termination
  by (relation "measure (\<lambda>n. n)") auto

declare show_nat.simps [simp del]

text \<open>\<open>buffer.toString('base64')\<close>; a byte is a number below 256.\<close>

definition b64_char :: "nat \<Rightarrow> char" where
  "b64_char n = ''ABCDEFGHIJKLMNOPQRSTUVWXYZabcdefghijklmnopqrstuvwxyz0123456789+/'' ! n"

fun base64 :: "nat list \<Rightarrow> string" where
  "base64 [] = []"
| "base64 [a] = [b64_char (a div 4), b64_char ((a mod 4) * 16), CHR ''='', CHR ''='']"
| "base64 [a, b] =
     [b64_char (a div 4), b64_char ((a mod 4) * 16 + b div 16), b64_char ((b mod 16) * 4), CHR ''='']"
| "base64 (a # b # c # rest) =
     [b64_char (a div 4), b64_char ((a mod 4) * 16 + b div 16),
      b64_char ((b mod 16) * 4 + c div 64), b64_char (c mod 64)] @ base64 rest"

subsection \<open>Entries, files and the outside\<close>

text \<open>
  An entry object: a row of the SELECT (\<open>'p\<close> is \<open>string list option\<close>, the column
  \<open>photos\<close> may be null) or an element of guestbook-data.json (\<open>'p\<close> is \<open>string list\<close>,
  the property is called \<open>photo_urls\<close> there). Both scripts then add \<open>embeddedPhotos\<close>.
\<close>

record 'p row =
  e_id :: nat
  e_name :: string
  e_note :: string
  e_photos :: 'p
  e_created_at :: string
  e_approved :: bool

record 'p xentry = "'p row" +
  embeddedPhotos :: "string list"

definition with_embedded :: "'p row \<Rightarrow> string list \<Rightarrow> 'p xentry" where
  "with_embedded entry embedded =
     \<lparr>e_id = e_id entry, e_name = e_name entry, e_note = e_note entry, e_photos = e_photos entry,
      e_created_at = e_created_at entry, e_approved = e_approved entry, embeddedPhotos = embedded\<rparr>"

text \<open>
  The backup directory: the files of backup/photos by name, guestbook-data.json (as the
  data that \<open>JSON.stringify\<close> writes and \<open>JSON.parse\<close> reads back), and the HTML files
  by name.
\<close>

record fsys =
  photo_files :: "string \<Rightarrow> nat list option"
  data_json :: "string list row list option"
  html_files :: "string \<Rightarrow> string option"

record response =
  ok :: bool
  body :: "nat list option"
  content_type :: "string option"

text \<open>
  The outside of an export run: the answer to the SELECT (\<open>None\<close>: the query throws),
  the outcome of the k-th \<open>fetch\<close> (\<open>None\<close>: it rejects; a \<open>body\<close> of \<open>None\<close>:
  \<open>arrayBuffer()\<close> rejects), whether the backup directories can be created and a path
  written, for a property name that every object inherits (\<open>constructor\<close>, \<open>toString\<close>,
  ...) the text that property prints as in a template literal, the two date formatters of
  the locale, and the fixed text of the page around the parts that \<open>buildHTML\<close> computes.
\<close>

record xenv =
  select_all :: "string list option row list option"
  fetch :: "nat \<Rightarrow> string \<Rightarrow> response option"
  can_mkdir :: bool
  writable :: "string \<Rightarrow> bool"
  inherited :: "string \<Rightarrow> string option"
  formatDate :: "string \<Rightarrow> string"
  exportDate :: string
  page_head :: string
  page_style :: string
  page_stats :: string
  page_between :: string
  page_messages :: string
  page_footer :: string

subsection \<open>Rendering\<close>

definition img_tag :: "string \<Rightarrow> string" where
  \<open>img_tag src = ''<img src="'' @ src @ ''" class="entry-photo" onclick="openLightbox(this.src)" />''\<close>

definition renderEntry :: "xenv \<Rightarrow> ('p, 'a) xentry_scheme \<Rightarrow> string" where
  \<open>renderEntry xe entry =
     (let photos = concat (map img_tag (embeddedPhotos entry)) in
      ''\<newline>    <div class="entry">\<newline>      <div class="entry-header">\<newline>        <h3 class="entry-name">''
      @ escapeHtml (e_name entry)
      @ ''</h3>\<newline>        <time class="entry-date">''
      @ formatDate xe (e_created_at entry)
      @ ''</time>\<newline>      </div>\<newline>      <p class="entry-note">''
      @ escapeHtml (e_note entry)
      @ ''</p>\<newline>      ''
      @ (if photos \<noteq> [] then ''<div class="entry-photos">'' @ photos @ ''</div>'' else [])
      @ ''\<newline>    </div>'')\<close>

text \<open>\<open>xs.join(sep)\<close>.\<close>

fun join :: "string \<Rightarrow> string list \<Rightarrow> string" where
  "join sep [] = []"
| "join sep [x] = x"
| "join sep (x # y # ys) = x @ sep @ join sep (y # ys)"

definition buildHTML :: "xenv \<Rightarrow> ('p, 'a) xentry_scheme list \<Rightarrow> string \<Rightarrow> string" where
  "buildHTML xe allEntries title =
     (let entriesHTML = join ''\<newline>'' (map (renderEntry xe) allEntries);
          photoCount = foldl (\<lambda>n e. n + length (embeddedPhotos e)) 0 allEntries
      in page_head xe @ escapeHtml title @ page_style xe
         @ show_nat (length allEntries) @ page_stats xe
         @ show_nat photoCount @ page_between xe
         @ entriesHTML @ page_messages xe
         @ exportDate xe @ page_footer xe)"

subsection \<open>The export script: download and main\<close>

text \<open>
  The lookup \<open>{ 'image/jpeg': '.jpg', ... }[contentType] || '.jpg'\<close>. A content type that
  is no key of the literal but names an inherited property reads that property, which is
  truthy, and the file name then carries its text.
\<close>

definition ext_of :: "xenv \<Rightarrow> string \<Rightarrow> string" where
  "ext_of xe contentType =
     (case map_of [(''image/jpeg'', ''.jpg''), (''image/png'', ''.png''),
                   (''image/gif'', ''.gif''), (''image/webp'', ''.webp'')] contentType of
        Some e \<Rightarrow> e
      | None \<Rightarrow> (case inherited xe contentType of Some t \<Rightarrow> t | None \<Rightarrow> ''.jpg''))"

text \<open>
  \<open>downloadImage(url, entryId, photoIndex)\<close>, as the k-th fetch of the run. Every
  exception inside is caught and gives \<open>null\<close>.
\<close>

definition downloadImage ::
  "xenv \<Rightarrow> nat \<Rightarrow> string \<Rightarrow> nat \<Rightarrow> nat \<Rightarrow> fsys \<Rightarrow> (string \<times> string) option \<times> fsys" where
  "downloadImage xe k url entryId photoIndex fs =
     (case fetch xe k url of
        None \<Rightarrow> (None, fs)
      | Some res \<Rightarrow>
          if \<not> ok res then (None, fs)
          else
            (case body res of
               None \<Rightarrow> (None, fs)
             | Some buf \<Rightarrow>
                 (let contentType =
                        (case content_type res of
                           None \<Rightarrow> ''image/jpeg''
                         | Some c \<Rightarrow> if c = [] then ''image/jpeg'' else c);
                      ext = ext_of xe contentType;
                      filename = ''entry-'' @ show_nat entryId @ ''-photo-'' @ show_nat photoIndex @ ext
                  in if writable xe (''photos/'' @ filename)
                     then (Some (''data:'' @ contentType @ '';base64,'' @ base64 buf, filename),
                           fs\<lparr>photo_files := (photo_files fs)(filename \<mapsto> buf)\<rparr>)
                     else (None, fs))))"

text \<open>The inner loop over \<open>entry.photos\<close>, from index \<open>i\<close>, with \<open>embedded\<close> as accumulator.\<close>

fun download_photos ::
  "xenv \<Rightarrow> nat \<Rightarrow> string list \<Rightarrow> nat \<Rightarrow> string list \<Rightarrow> nat \<Rightarrow> fsys \<Rightarrow> string list \<times> nat \<times> fsys" where
  "download_photos xe entryId [] i embedded totalPhotos fs = (embedded, totalPhotos, fs)"
| "download_photos xe entryId (url # rest) i embedded totalPhotos fs =
     (let (result, fs1) = downloadImage xe (Suc totalPhotos) url entryId (i + 1) fs
      in case result of
           Some (dataUri, filename) \<Rightarrow>
             download_photos xe entryId rest (i + 1) (embedded @ [dataUri]) (Suc totalPhotos) fs1
         | None \<Rightarrow> download_photos xe entryId rest (i + 1) embedded (Suc totalPhotos) fs1)"

text \<open>The outer loop over the entries.\<close>

fun download_entries ::
  "xenv \<Rightarrow> string list option row list \<Rightarrow> nat \<Rightarrow> fsys
     \<Rightarrow> string list option xentry list \<times> nat \<times> fsys" where
  "download_entries xe [] totalPhotos fs = ([], totalPhotos, fs)"
| "download_entries xe (entry # rest) totalPhotos fs =
     (let (embedded, t1, fs1) =
            (case e_photos entry of
               None \<Rightarrow> ([], totalPhotos, fs)
             | Some photos \<Rightarrow>
                 if length photos > 0
                 then download_photos xe (e_id entry) photos 0 [] totalPhotos fs
                 else ([], totalPhotos, fs));
          (entries, t2, fs2) = download_entries xe rest t1 fs1
      in (with_embedded entry embedded # entries, t2, fs2))"

text \<open>An element of \<open>jsonData\<close>; \<open>e.photos || []\<close>.\<close>

definition to_json :: "(string list option, 'a) row_scheme \<Rightarrow> string list row" where
  "to_json e =
     \<lparr>e_id = e_id e, e_name = e_name e, e_note = e_note e,
      e_photos = (case e_photos e of None \<Rightarrow> [] | Some ps \<Rightarrow> ps),
      e_created_at = e_created_at e, e_approved = e_approved e\<rparr>"

record 'p variant =
  v_file :: string
  v_data :: "'p xentry list"
  v_title :: string

text \<open>The dash U+2014 of the titles, written as its UTF-8 bytes.\<close>

definition em_dash :: string where
  "em_dash = [CHR 0xE2, CHR 0x80, CHR 0x94]"

definition export_variants :: "'p xentry list \<Rightarrow> 'p variant list" where
  "export_variants entries =
     (let cleanEntries = drop 3 entries;
          publicEntries = filter e_approved entries;
          cleanPublicEntries = filter e_approved cleanEntries
      in [\<lparr>v_file = ''time-capsule-full-with-tests.html'', v_data = entries,
            v_title = ''Wedding Guestbook '' @ em_dash @ '' Complete Archive (incl. test posts)''\<rparr>,
          \<lparr>v_file = ''time-capsule-public-with-tests.html'', v_data = publicEntries,
            v_title = ''Wedding Guestbook '' @ em_dash @ '' Public (incl. test posts)''\<rparr>,
          \<lparr>v_file = ''time-capsule-full.html'', v_data = cleanEntries,
            v_title = ''Wedding Guestbook '' @ em_dash @ '' Complete Archive''\<rparr>,
          \<lparr>v_file = ''time-capsule-public.html'', v_data = cleanPublicEntries,
            v_title = ''Wedding Guestbook''\<rparr>])"

text \<open>
  The loop that builds and writes each variant; \<open>False\<close> when \<open>writeFileSync\<close> throws,
  with the files written until then.
\<close>

fun write_variants :: "xenv \<Rightarrow> 'p variant list \<Rightarrow> fsys \<Rightarrow> bool \<times> fsys" where
  "write_variants xe [] fs = (True, fs)"
| "write_variants xe (v # vs) fs =
     (let html = buildHTML xe (v_data v) (v_title v)
      in if writable xe (v_file v)
         then write_variants xe vs (fs\<lparr>html_files := (html_files fs)(v_file v \<mapsto> html)\<rparr>)
         else (False, fs))"

datatype 'a run = Failed | Completed 'a

text \<open>
  \<open>main()\<close>. A completed run gives the entries with their embedded photos, the variants
  and the number of photos tried; \<open>Failed\<close> is the rejection that ends the process.
\<close>

definition main ::
  "xenv \<Rightarrow> fsys \<Rightarrow> (string list option xentry list \<times> string list option variant list \<times> nat) run \<times> fsys" where
  "main xe fs =
     (if \<not> can_mkdir xe then (Failed, fs)
      else
        (case select_all xe of
           None \<Rightarrow> (Failed, fs)
         | Some rows \<Rightarrow>
             (let (entries, totalPhotos, fs1) = download_entries xe rows 0 fs;
                  jsonData = map to_json entries
              in if \<not> writable xe ''guestbook-data.json'' then (Failed, fs1)
                 else
                   (let fs2 = fs1\<lparr>data_json := Some jsonData\<rparr>;
                        variants = export_variants entries;
                        (written, fs3) = write_variants xe variants fs2
                    in if written then (Completed (entries, variants, totalPhotos), fs3)
                       else (Failed, fs3)))))"

subsection \<open>scripts/generate-html.js: the run from the saved files\<close>

text \<open>
  \<open>path.extname\<close> on a file name without directory part that does not start with a dot:
  from the last dot on.
\<close>

definition extname :: "string \<Rightarrow> string" where
  "extname p =
     (if CHR ''.'' \<in> set p then CHR ''.'' # rev (takeWhile (\<lambda>c. c \<noteq> CHR ''.'') (rev p)) else [])"

text \<open>The body of the loop over \<open>i\<close>; a path is the file's name in backup/photos.\<close>

definition load_photo :: "fsys \<Rightarrow> nat \<Rightarrow> string list \<Rightarrow> nat \<Rightarrow> string list" where
  "load_photo fs entryId embedded i =
     (let baseName = ''entry-'' @ show_nat entryId @ ''-photo-'' @ show_nat (i + 1);
          match = find (\<lambda>p. photo_files fs p \<noteq> None)
                    (map (\<lambda>ext. baseName @ ext) [''.jpg'', ''.png'', ''.gif'', ''.webp''])
      in case match of
           None \<Rightarrow> embedded
         | Some m \<Rightarrow>
             (case photo_files fs m of
                None \<Rightarrow> embedded
              | Some buf \<Rightarrow>
                  (let ext = drop 1 (extname m);
                       mime = (if ext = ''jpg'' then ''image/jpeg'' else ''image/'' @ ext)
                   in embedded @ [''data:'' @ mime @ '';base64,'' @ base64 buf])))"

definition load_photos :: "fsys \<Rightarrow> string list row \<Rightarrow> string list xentry" where
  "load_photos fs entry =
     with_embedded entry (foldl (load_photo fs (e_id entry)) [] [0 ..< length (e_photos entry)])"

definition html_variants :: "'p xentry list \<Rightarrow> 'p variant list" where
  "html_variants entries =
     (let TEST_IDS = [e_id (entries ! 0), e_id (entries ! 1), e_id (entries ! 2)];
          cleanEntries = filter (\<lambda>e. e_id e \<notin> set TEST_IDS) entries
      in [\<lparr>v_file = ''time-capsule-all-with-tests.html'', v_data = entries,
            v_title = ''Wedding Guestbook '' @ em_dash @ '' Complete Archive (incl. test posts)''\<rparr>,
          \<lparr>v_file = ''time-capsule-full.html'', v_data = cleanEntries,
            v_title = ''Wedding Guestbook '' @ em_dash @ '' Complete Archive''\<rparr>,
          \<lparr>v_file = ''time-capsule-public.html'', v_data = filter e_approved cleanEntries,
            v_title = ''Wedding Guestbook''\<rparr>])"

text \<open>
  The script. It fails when guestbook-data.json cannot be read, when fewer than three
  entries are loaded (\<open>entries[2].id\<close> reads a property of \<open>undefined\<close>), and when a
  file cannot be written.
\<close>

definition generate_html :: "xenv \<Rightarrow> fsys \<Rightarrow> (string list variant list) run \<times> fsys" where
  "generate_html xe fs =
     (case data_json fs of
        None \<Rightarrow> (Failed, fs)
      | Some loaded \<Rightarrow>
          (let entries = map (load_photos fs) loaded
           in if length entries < 3 then (Failed, fs)
              else
                (let variants = html_variants entries;
                     (written, fs1) = write_variants xe variants fs
                 in if written then (Completed variants, fs1) else (Failed, fs1))))"

section \<open>Notions used to state the properties\<close>

text \<open>
  The ingests of a list of files when the first is the k-th call to the media store:
  each buffer with the outcome the media store gives it.
\<close>

definition ingests :: "env \<Rightarrow> nat \<Rightarrow> upfile list \<Rightarrow> (nat list \<times> string option) list" where
  "ingests ev k fs = map (\<lambda>(i, f). (buffer f, upload_stream ev i (buffer f))) (enumerate k fs)"

definition failures_logged :: "world \<Rightarrow> nat" where
  "failures_logged w = length (filter (\<lambda>l. l = LogUploadFailed) (console w))"

text \<open>The ids of the table are pairwise different and below the sequence's next value.\<close>

definition ids_ok :: "world \<Rightarrow> bool" where
  "ids_ok w = (distinct (map c_id (table w)) \<and> list_all (\<lambda>e. c_id e < next_id w) (table w))"

subsection \<open>Sample requests\<close>

definition photo_a :: upfile where
  "photo_a = \<lparr>originalname = ''a.jpg'', mimetype = ''image/jpeg'', buffer = [255, 216, 255]\<rparr>"

definition photo_b :: upfile where
  "photo_b = \<lparr>originalname = ''b.png'', mimetype = ''image/png'', buffer = [137, 80]\<rparr>"

definition photo_c :: upfile where
  "photo_c = \<lparr>originalname = ''c.gif'', mimetype = ''image/gif'', buffer = [71, 73, 70]\<rparr>"

text \<open>A server whose media store refuses its second call.\<close>

definition sample_env :: env where
  "sample_env =
     \<lparr>cloudinaryConfigured = True, ADMIN_PASSWORD = Some ''secret'', db_up = True, now = 1000,
      upload_stream = (\<lambda>k buf. if k = 0 then Some ''https://cdn.example/a.jpg''
                               else if k = 2 then Some ''https://cdn.example/c.gif'' else None)\<rparr>"

text \<open>A server started without \<open>ADMIN_PASSWORD\<close>.\<close>

definition open_env :: env where
  "open_env = sample_env\<lparr>ADMIN_PASSWORD := None\<rparr>"

definition sample_request :: request where
  "sample_request =
     \<lparr>multer_err = None, body_name = JStr ''Alex & Jo'', body_note = JStr ''Congrats!<3'',
      body_private = JUndefined, body_approved = JUndefined,
      files = Some [photo_a, photo_b, photo_c], x_admin_password = None, params_id = None\<rparr>"

definition private_request :: request where
  "private_request = sample_request\<lparr>body_private := JStr ''true'', files := None\<rparr>"

text \<open>
  A valid submission whose name holds a NUL character, and a server whose database refuses
  the INSERT of the request.
\<close>

definition nul_request :: request where
  "nul_request = private_request\<lparr>body_name := JStr [CHR ''a'', CHR 0x00, CHR ''b'']\<rparr>"

definition refusing_env :: env where
  "refusing_env = sample_env\<lparr>db_up := False\<rparr>"

text \<open>The table after a public and then a private submission.\<close>

definition two_entries :: world where
  "two_entries = snd (post_entries sample_env private_request (snd (post_entries sample_env sample_request initial)))"

subsection \<open>Escaping\<close>

text \<open>The entity that stands for a character, and the characters of a text that delimit markup.\<close>

definition entity :: "char \<Rightarrow> string" where
  "entity c =
     (if c = CHR ''&'' then ''&amp;''
      else if c = CHR ''<'' then ''&lt;''
      else if c = CHR ''>'' then ''&gt;''
      else if c = CHR 0x22 then ''&quot;''
      else [c])"

definition markup :: "string \<Rightarrow> string" where
  "markup s = filter (\<lambda>c. c = CHR ''<'' \<or> c = CHR ''>'' \<or> c = CHR 0x22) s"

subsection \<open>The download loops as functions of the outside\<close>

text \<open>
  What a download returns does not depend on the files present: \<open>tried\<close> is its result
  on the empty directory.
\<close>

definition no_files :: fsys where
  "no_files = \<lparr>photo_files = (\<lambda>p. None), data_json = None, html_files = (\<lambda>p. None)\<rparr>"

definition tried :: "xenv \<Rightarrow> nat \<Rightarrow> string \<Rightarrow> nat \<Rightarrow> nat \<Rightarrow> (string \<times> string) option" where
  "tried xe k url entryId photoIndex = fst (downloadImage xe k url entryId photoIndex no_files)"

text \<open>
  The results of downloading the photos of one entry, from index \<open>i\<close>, after \<open>t\<close>
  earlier fetches; the number of photos of a row; the fetches made before the j-th row;
  the embedded photos of a row; and the entries of a run that starts after \<open>t\<close> fetches.
\<close>

fun outcomes :: "xenv \<Rightarrow> nat \<Rightarrow> string list \<Rightarrow> nat \<Rightarrow> nat \<Rightarrow> (string \<times> string) option list" where
  "outcomes xe entryId [] i t = []"
| "outcomes xe entryId (url # rest) i t =
     tried xe (Suc t) url entryId (i + 1) # outcomes xe entryId rest (i + 1) (Suc t)"

definition photo_count :: "(string list option, 'a) row_scheme \<Rightarrow> nat" where
  "photo_count r = (case e_photos r of None \<Rightarrow> 0 | Some ps \<Rightarrow> length ps)"


definition embedded_of :: "xenv \<Rightarrow> nat \<Rightarrow> string list option row \<Rightarrow> string list" where
  "embedded_of xe t r =
     (case e_photos r of
        None \<Rightarrow> []
      | Some ps \<Rightarrow> map fst (List.map_filter (\<lambda>r. r) (outcomes xe (e_id r) ps 0 t)))"

fun embed_all :: "xenv \<Rightarrow> string list option row list \<Rightarrow> nat \<Rightarrow> string list option xentry list" where
  "embed_all xe [] t = []"
| "embed_all xe (r # rs) t = with_embedded r (embedded_of xe t r) # embed_all xe rs (t + photo_count r)"

subsection \<open>The two ways to an embedded photo\<close>

text \<open>
  The media type a response is taken to have; the extensions the re-run probes, in its
  order; the media types the export script knows; the base name both scripts build; and
  the media type the re-run derives from an extension.
\<close>

definition content_type_of :: "response \<Rightarrow> string" where
  "content_type_of res =
     (case content_type res of None \<Rightarrow> ''image/jpeg'' | Some c \<Rightarrow> if c = [] then ''image/jpeg'' else c)"

definition candidates :: "string list" where
  "candidates = [''.jpg'', ''.png'', ''.gif'', ''.webp'']"

definition known_types :: "string list" where
  "known_types = [''image/jpeg'', ''image/png'', ''image/gif'', ''image/webp'']"

definition photo_base :: "nat \<Rightarrow> nat \<Rightarrow> string" where
  "photo_base entryId photoIndex = ''entry-'' @ show_nat entryId @ ''-photo-'' @ show_nat photoIndex"

definition mime_of :: "string \<Rightarrow> string" where
  "mime_of ext = (if ext = ''.jpg'' then ''image/jpeg'' else ''image/'' @ drop 1 ext)"

text \<open>The result of a run that completed.\<close>

definition completed :: "'a run \<Rightarrow> 'a option" where
  "completed r = (case r of Completed x \<Rightarrow> Some x | Failed \<Rightarrow> None)"

subsection \<open>Sample runs of the exporter\<close>

definition sample_xenv :: xenv where
  "sample_xenv =
     \<lparr>select_all = None, fetch = (\<lambda>k url. None), can_mkdir = True, writable = (\<lambda>p. True),
      inherited = (\<lambda>n. if n = ''constructor'' then Some ''function Object() { [native code] }'' else None),
      formatDate = (\<lambda>d. d), exportDate = ''June 1, 2025'',
      page_head = ''<html><title>'', page_style = ''</title><body><span>'',
      page_stats = ''</span> messages <span>'', page_between = ''</span> photos'',
      page_messages = ''<footer>Archived on '', page_footer = ''</footer></body></html>''\<rparr>"

definition script_entry :: "string list xentry" where
  "script_entry =
     \<lparr>e_id = 7, e_name = ''Alex & Jo'', e_note = ''<script>alert(1)</script>'', e_photos = [],
      e_created_at = ''2025-06-01T12:00:00.000Z'', e_approved = True, embeddedPhotos = []\<rparr>"

text \<open>
  Five rows, the first three being test posts; the fourth has three photos, of which the
  second cannot be fetched.
\<close>

definition sample_rows :: "string list option row list" where
  "sample_rows =
     [\<lparr>e_id = 1, e_name = ''test'', e_note = ''first test'', e_photos = Some [],
       e_created_at = ''2025-05-01T10:00:00.000Z'', e_approved = True\<rparr>,
      \<lparr>e_id = 2, e_name = ''test'', e_note = ''second test'', e_photos = None,
       e_created_at = ''2025-05-01T10:05:00.000Z'', e_approved = False\<rparr>,
      \<lparr>e_id = 4, e_name = ''test'', e_note = ''third test'', e_photos = Some [],
       e_created_at = ''2025-05-01T10:10:00.000Z'', e_approved = True\<rparr>,
      \<lparr>e_id = 5, e_name = ''Alex & Jo'', e_note = ''Congrats!<3'',
       e_photos = Some [''https://cdn.example/a.jpg'', ''https://cdn.example/b.png'', ''https://cdn.example/c.gif''],
       e_created_at = ''2025-06-01T12:00:00.000Z'', e_approved = True\<rparr>,
      \<lparr>e_id = 6, e_name = ''Sam'', e_note = ''For the two of you only'', e_photos = Some [],
       e_created_at = ''2025-06-02T09:00:00.000Z'', e_approved = False\<rparr>]"

definition run_xenv :: xenv where
  "run_xenv =
     sample_xenv\<lparr>select_all := Some sample_rows,
                 fetch := (\<lambda>k url. if url = ''https://cdn.example/b.png'' then None
                                    else Some \<lparr>ok = True, body = Some [9, 9, 9], content_type = Some ''image/png''\<rparr>)\<rparr>"

text \<open>A photos directory that holds a file of an earlier run, and a server that answers with an odd media type.\<close>

definition stale_files :: fsys where
  "stale_files = no_files\<lparr>photo_files := (\<lambda>p. if p = ''entry-5-photo-1.jpg'' then Some [1, 2, 3] else None)\<rparr>"

definition odd_xenv :: xenv where
  "odd_xenv =
     run_xenv\<lparr>fetch := (\<lambda>k url. Some \<lparr>ok = True, body = Some [9, 9, 9], content_type = Some ''constructor''\<rparr>)\<rparr>"

text \<open>A backup directory that holds the saved data only.\<close>

definition json_only :: fsys where
  "json_only = no_files\<lparr>data_json := Some (map to_json sample_rows)\<rparr>"

text \<open>A backup directory whose saved data has two entries.\<close>

definition two_saved :: fsys where
  "two_saved = no_files\<lparr>data_json := Some (take 2 (map to_json sample_rows))\<rparr>"

section \<open>Properties of the server\<close>

subsection \<open>The upload loop\<close>

lemma ingests_Nil: "ingests ev k [] = []"
  by (simp add: ingests_def)

lemma ingests_Cons:
  "ingests ev k (f # fs) = (buffer f, upload_stream ev k (buffer f)) # ingests ev (Suc k) fs"
  by (simp add: ingests_def)

lemma upload_files_spec:
  "upload_files ev fs photos w = (ps, w') \<Longrightarrow>
     cloud_calls w' = cloud_calls w @ ingests ev (length (cloud_calls w)) fs
     \<and> ps = photos @ List.map_filter snd (ingests ev (length (cloud_calls w)) fs)
     \<and> failures_logged w' =
         failures_logged w + length (filter (\<lambda>c. snd c = None) (ingests ev (length (cloud_calls w)) fs))
     \<and> table w' = table w \<and> next_id w' = next_id w"
proof (induction fs arbitrary: photos w)
  case Nil
  then show ?case by (simp add: ingests_Nil List.map_filter_simps)
next
  case (Cons f fs)
  show ?case
  proof (cases "upload_stream ev (length (cloud_calls w)) (buffer f)")
    case None
    let ?w2 = "say LogUploadFailed (snd (uploadToCloudinary ev (buffer f) (mimetype f)
                 (say (LogUploading (originalname f) (length (buffer f))) w)))"
    from Cons.prems None have "upload_files ev fs photos ?w2 = (ps, w')"
      by (simp add: uploadToCloudinary_def say_def Let_def)
    from Cons.IH[OF this] None show ?thesis
      by (simp add: uploadToCloudinary_def say_def Let_def ingests_Cons List.map_filter_simps
            failures_logged_def)
  next
    case (Some url)
    let ?w2 = "say (LogUploadSuccess url) (snd (uploadToCloudinary ev (buffer f) (mimetype f)
                 (say (LogUploading (originalname f) (length (buffer f))) w)))"
    from Cons.prems Some have "upload_files ev fs (photos @ [url]) ?w2 = (ps, w')"
      by (simp add: uploadToCloudinary_def say_def Let_def)
    from Cons.IH[OF this] Some show ?thesis
      by (simp add: uploadToCloudinary_def say_def Let_def ingests_Cons List.map_filter_simps
            failures_logged_def)
  qed
qed


lemma upload_files_table:
  "upload_files ev fs photos w = (ps, w') \<Longrightarrow> table w' = table w \<and> next_id w' = next_id w"
  using upload_files_spec by blast

lemma upload_photos_table:
  "upload_photos ev req w = (ps, w') \<Longrightarrow> table w' = table w \<and> next_id w' = next_id w"
  by (auto simp: upload_photos_def say_def Let_def split: option.splits if_splits
           dest: upload_files_table)

subsection \<open>The ids of a reachable table\<close>

lemma ids_ok_post: "ids_ok w \<Longrightarrow> ids_ok (snd (post_entries ev req w))"
proof -
  assume ok: "ids_ok w"
  obtain ps w1 where up: "upload_photos ev req w = (ps, w1)" by (cases "upload_photos ev req w")
  from upload_photos_table[OF up] have same: "table w1 = table w" "next_id w1 = next_id w" by auto
  from ok same have "ids_ok w1" by (simp add: ids_ok_def)
  moreover from ok same
  have "ids_ok (w1\<lparr>table := table w1 @ [\<lparr>c_id = next_id w1, c_name = a, c_note = b, c_photos = c,
                                         c_approved = d, c_created_at = t\<rparr>],
                   next_id := Suc (next_id w1)\<rparr>)" for a b c d t
    by (auto simp: ids_ok_def list_all_iff)
  ultimately show ?thesis using ok up
    by (auto simp: post_entries_def submit_def sql_insert_def Let_def say_def ids_ok_def
             split: option.splits)
qed

lemma ids_ok_patch: "ids_ok w \<Longrightarrow> ids_ok (snd (admin_patch_entry ev req w))"
  by (auto simp: admin_patch_entry_def Let_def say_def ids_ok_def list_all_iff comp_def
                 if_distrib[of c_id] cong: if_cong
           split: option.splits jsval.splits list.splits bool.splits)

lemma ids_ok_delete: "ids_ok w \<Longrightarrow> ids_ok (snd (admin_delete_entry ev req w))"
  by (auto simp: admin_delete_entry_def Let_def say_def ids_ok_def list_all_iff distinct_map_filter
           split: option.splits list.splits bool.splits)

lemma reachable_ids_ok: "reachable w \<Longrightarrow> ids_ok w"
proof (induction rule: reachable.induct)
  case start
  show ?case by (simp add: ids_ok_def initial_def)
next
  case (post w ev req)
  then show ?case by (simp add: ids_ok_post)
next
  case (list w ev)
  then show ?case by (simp add: get_entries_def say_def ids_ok_def)
next
  case (admin_list w ev req)
  then show ?case by (auto simp: admin_get_entries_def say_def ids_ok_def split: option.splits)
next
  case (patch w ev req)
  then show ?case by (simp add: ids_ok_patch)
next
  case (delete w ev req)
  then show ?case by (simp add: ids_ok_delete)
qed

lemma order_desc_mset: "mset (order_desc es) = mset es"
  by (simp add: order_desc_def)

lemma order_desc_sorted:
  "sorted_wrt (\<lambda>a b. c_created_at a \<ge> c_created_at b) (order_desc es)"
proof -
  have "sorted (map (\<lambda>e. - c_created_at e) (order_desc es))"
    unfolding order_desc_def by (rule sorted_sort_key)
  then show ?thesis by (simp add: sorted_map)
qed

lemmas server_eval =
  post_entries_def handleUpload_def submit_def upload_photos_def
  uploadToCloudinary_def sql_insert_def isPrivate_def say_def initial_def Let_def
  sample_env_def sample_request_def private_request_def photo_a_def photo_b_def photo_c_def

lemma two_entries_table:
  "table two_entries =
     [\<lparr>c_id = 1, c_name = JStr ''Alex & Jo'', c_note = JStr ''Congrats!<3'',
       c_photos = [''https://cdn.example/a.jpg'', ''https://cdn.example/c.gif''],
       c_approved = True, c_created_at = 1000\<rparr>,
      \<lparr>c_id = 2, c_name = JStr ''Alex & Jo'', c_note = JStr ''Congrats!<3'',
       c_photos = [], c_approved = False, c_created_at = 1000\<rparr>]"
  by (simp add: two_entries_def server_eval)

subsection \<open>The public feed\<close>

text \<open>
  Claim C1. In every reachable state, when the database answers, the public feed returns
  exactly the approved rows of the table, each once, projected to the columns
  \<open>id, name, note, photos, created_at\<close> (a \<open>public_entry\<close> has no \<open>approved\<close> field),
  in descending order of \<open>created_at\<close>; and the id of no unapproved row occurs in the answer.
\<close>

theorem public_feed_approved_only:
  assumes "reachable w" and "db_up ev"
  shows "\<exists>xs. get_entries ev w = (Entries xs, w)
           \<and> mset xs = image_mset public_view (filter_mset c_approved (mset (table w)))
           \<and> sorted_wrt (\<lambda>a b. p_created_at a \<ge> p_created_at b) xs
           \<and> (\<forall>e \<in> set (table w). \<not> c_approved e \<longrightarrow> c_id e \<notin> p_id ` set xs)"
proof -
  let ?rows = "order_desc (filter c_approved (table w))"
  let ?xs = "map public_view ?rows"
  have 1: "get_entries ev w = (Entries ?xs, w)"
    using assms(2) by (simp add: get_entries_def)
  have 2: "mset ?xs = image_mset public_view (filter_mset c_approved (mset (table w)))"
    by (simp add: order_desc_mset)
  have 3: "sorted_wrt (\<lambda>a b. p_created_at a \<ge> p_created_at b) ?xs"
    using order_desc_sorted[of "filter c_approved (table w)"]
    by (simp add: sorted_wrt_map public_view_def)
  have set_rows: "set ?rows = {e \<in> set (table w). c_approved e}"
    using order_desc_mset[of "filter c_approved (table w)"] by (metis mset_eq_setD set_filter)
  have d: "distinct (map c_id (table w))"
    using reachable_ids_ok[OF assms(1)] by (simp add: ids_ok_def)
  have 4: "\<forall>e \<in> set (table w). \<not> c_approved e \<longrightarrow> c_id e \<notin> p_id ` set ?xs"
  proof (intro ballI impI notI)
    fix e assume e: "e \<in> set (table w)" "\<not> c_approved e" "c_id e \<in> p_id ` set ?xs"
    then obtain e' where e': "e' \<in> set (table w)" "c_approved e'" "c_id e' = c_id e"
      using set_rows by (auto simp: public_view_def)
    with d e(1) have "e' = e" by (meson distinct_map inj_onD)
    with e' e(2) show False by simp
  qed
  from 1 2 3 4 show ?thesis by blast
qed

theorem public_feed_approved_only_witness:
  "reachable two_entries \<and> db_up sample_env
   \<and> map c_approved (table two_entries) = [True, False]
   \<and> get_entries sample_env two_entries =
       (Entries [\<lparr>p_id = 1, p_name = JStr ''Alex & Jo'', p_note = JStr ''Congrats!<3'',
                  p_photos = [''https://cdn.example/a.jpg'', ''https://cdn.example/c.gif''],
                  p_created_at = 1000\<rparr>], two_entries)"
proof -
  have r: "reachable two_entries"
    unfolding two_entries_def by (intro reachable.post reachable.start)
  have d: "db_up sample_env" by (simp add: sample_env_def)
  from public_feed_approved_only[OF r d] obtain xs where
    xs: "get_entries sample_env two_entries = (Entries xs, two_entries)"
    by blast
  have "get_entries sample_env two_entries =
       (Entries [\<lparr>p_id = 1, p_name = JStr ''Alex & Jo'', p_note = JStr ''Congrats!<3'',
                  p_photos = [''https://cdn.example/a.jpg'', ''https://cdn.example/c.gif''],
                  p_created_at = 1000\<rparr>], two_entries)"
    using d by (simp add: get_entries_def order_desc_def public_view_def two_entries_table)
  with xs r d show ?thesis by (simp add: two_entries_table)
qed

subsection \<open>Submission\<close>

text \<open>
  Claim C2, amended. Take a submission whose name is a string of 1 to 120 characters and
  whose note is a non-empty string, and on which the upload layer reports no error. When
  the database accepts the INSERT, the submission succeeds: the table grows by exactly
  one row, with the submitted name and note, whose \<open>approved\<close> is the negation of
  \<open>isPrivate\<close>. When the database refuses the INSERT, the answer is 500 and the table is
  as it was.
\<close>

theorem submit_valid_creates_entry:
  assumes "multer_err req = None"
    and "body_name req = JStr nm" and "1 \<le> length nm" and "length nm \<le> 120"
    and "body_note req = JStr nt" and "nt \<noteq> []"
  shows "(db_up ev \<longrightarrow>
           (\<exists>msg e w'. post_entries ev req w = (Submitted msg (c_id e) (JStr nm) (c_created_at e), w')
              \<and> table w' = table w @ [e]
              \<and> c_name e = JStr nm \<and> c_note e = JStr nt
              \<and> c_approved e = (\<not> isPrivate req)))
         \<and> (\<not> db_up ev \<longrightarrow>
           (\<exists>w'. post_entries ev req w = (Error 500 ''Failed to submit entry'', w')
              \<and> table w' = table w))"
proof -
  obtain ps w1 where up: "upload_photos ev req w = (ps, w1)" by (cases "upload_photos ev req w")
  then have t: "table w1 = table w" using upload_photos_table by blast
  from assms(3) have ne: "nm \<noteq> []" by auto
  have accepted: "\<exists>msg e w'. post_entries ev req w = (Submitted msg (c_id e) (JStr nm) (c_created_at e), w')
              \<and> table w' = table w @ [e]
              \<and> c_name e = JStr nm \<and> c_note e = JStr nt
              \<and> c_approved e = (\<not> isPrivate req)" if "db_up ev"
    using that up t ne assms
    by (auto simp: post_entries_def handleUpload_def submit_def sql_insert_def Let_def)
  have refused: "\<exists>w'. post_entries ev req w = (Error 500 ''Failed to submit entry'', w')
              \<and> table w' = table w" if "\<not> db_up ev"
    using that up t ne assms
    by (simp add: post_entries_def handleUpload_def submit_def sql_insert_def Let_def say_def)
  from accepted refused show ?thesis by blast
qed

theorem submit_valid_creates_entry_witness:
  "multer_err private_request = None
   \<and> body_name private_request = JStr ''Alex & Jo'' \<and> 1 \<le> length ''Alex & Jo''
   \<and> length ''Alex & Jo'' \<le> 120
   \<and> body_note private_request = JStr ''Congrats!<3'' \<and> ''Congrats!<3'' \<noteq> []
   \<and> isPrivate private_request
   \<and> db_up sample_env
   \<and> post_entries sample_env private_request initial =
       (Submitted ''Thank you! Your private message has been sent to the couple.'' 1
          (JStr ''Alex & Jo'') 1000,
        initial\<lparr>table := [\<lparr>c_id = 1, c_name = JStr ''Alex & Jo'', c_note = JStr ''Congrats!<3'',
                            c_photos = [], c_approved = False, c_created_at = 1000\<rparr>],
                next_id := 2\<rparr>)
   \<and> db_up refusing_env = False
   \<and> post_entries refusing_env private_request initial =
       (Error 500 ''Failed to submit entry'',
        initial\<lparr>console := [LogError ''Error submitting entry:'']\<rparr>)"
  using submit_valid_creates_entry[of private_request "''Alex & Jo''" "''Congrats!<3''" sample_env initial]
        submit_valid_creates_entry[of private_request "''Alex & Jo''" "''Congrats!<3''" refusing_env initial]
  by (simp add: server_eval refusing_env_def)

text \<open>
  Claim C2 as stated fails: the name \<open>a\<close>, NUL, \<open>b\<close> has three characters and the note is
  not empty, the database refuses the INSERT, and the answer is 500 with no row created.
\<close>

theorem submit_valid_creates_entry_counterexample:
  "multer_err nul_request = None
   \<and> body_name nul_request = JStr [CHR ''a'', CHR 0x00, CHR ''b'']
   \<and> length [CHR ''a'', CHR 0x00, CHR ''b''] = 3
   \<and> body_note nul_request = JStr ''Congrats!<3''
   \<and> db_up refusing_env = False
   \<and> post_entries refusing_env nul_request initial =
       (Error 500 ''Failed to submit entry'',
        initial\<lparr>console := [LogError ''Error submitting entry:'']\<rparr>)
   \<and> table (snd (post_entries refusing_env nul_request initial)) = []"
  by (simp add: server_eval refusing_env_def nul_request_def)

text \<open>
  Claim C3. A submission whose name is absent, null or empty, or longer than 120
  characters, or whose note is absent, null or empty, is answered with status 400 and
  leaves the state as it was: no row is inserted, the media store is not called and
  nothing is logged.
\<close>

theorem submit_invalid_rejected:
  assumes "body_name req \<in> {JUndefined, JNull, JStr ''''}
           \<or> (\<exists>s. body_name req = JStr s \<and> length s > 120)
           \<or> body_note req \<in> {JUndefined, JNull, JStr ''''}"
  shows "\<exists>msg. post_entries ev req w = (Error 400 msg, w)"
  using assms
  by (auto simp: post_entries_def handleUpload_def submit_def Let_def split: option.splits)

theorem submit_invalid_rejected_witness:
  "body_name (sample_request\<lparr>body_name := JStr (replicate 121 CHR ''x'')\<rparr>) = JStr (replicate 121 CHR ''x'')
   \<and> length (replicate 121 CHR ''x'') > 120
   \<and> post_entries sample_env (sample_request\<lparr>body_name := JStr (replicate 121 CHR ''x'')\<rparr>) initial
       = (Error 400 ''Name must be 120 characters or less'', initial)
   \<and> body_note (sample_request\<lparr>body_note := JUndefined\<rparr>) = JUndefined
   \<and> post_entries sample_env (sample_request\<lparr>body_note := JUndefined\<rparr>) initial
       = (Error 400 ''Name and note are required'', initial)"
  using submit_invalid_rejected[of "sample_request\<lparr>body_name := JStr (replicate 121 CHR ''x'')\<rparr>" sample_env initial]
        submit_invalid_rejected[of "sample_request\<lparr>body_note := JUndefined\<rparr>" sample_env initial]
  by (simp add: server_eval)



subsection \<open>Admin authentication\<close>

text \<open>
  Claim C9. \<open>adminAuth\<close> lets a request through exactly when its \<open>x-admin-password\<close>
  header equals the configured \<open>ADMIN_PASSWORD\<close>; otherwise each admin endpoint answers
  401 and changes nothing. When no password is configured, a request without the header
  is let through and lists every row.
\<close>

theorem admin_auth_iff:
  "(adminAuth ev req = None) = (x_admin_password req = ADMIN_PASSWORD ev)
   \<and> (x_admin_password req \<noteq> ADMIN_PASSWORD ev \<longrightarrow>
        admin_get_entries ev req w = (Error 401 ''Unauthorized'', w)
        \<and> admin_patch_entry ev req w = (Error 401 ''Unauthorized'', w)
        \<and> admin_delete_entry ev req w = (Error 401 ''Unauthorized'', w))
   \<and> (ADMIN_PASSWORD ev = None \<and> x_admin_password req = None \<and> db_up ev \<longrightarrow>
        admin_get_entries ev req w = (AdminEntries (order_desc (table w)), w))"
  by (simp add: adminAuth_def admin_get_entries_def admin_patch_entry_def admin_delete_entry_def)

theorem admin_auth_iff_witness:
  "x_admin_password sample_request \<noteq> ADMIN_PASSWORD sample_env
   \<and> admin_get_entries sample_env sample_request initial = (Error 401 ''Unauthorized'', initial)
   \<and> admin_delete_entry sample_env sample_request initial = (Error 401 ''Unauthorized'', initial)
   \<and> ADMIN_PASSWORD open_env = None \<and> x_admin_password sample_request = None \<and> db_up open_env
   \<and> adminAuth open_env sample_request = None
   \<and> admin_get_entries open_env sample_request initial = (AdminEntries [], initial)"
  using admin_auth_iff[of sample_env sample_request initial]
        admin_auth_iff[of open_env sample_request initial]
  by (simp add: sample_env_def open_env_def sample_request_def initial_def order_desc_def)

subsection \<open>The private flag\<close>

text \<open>
  Claim C10. A submission is private exactly when its \<open>private\<close> field is the string
  \<open>true\<close>. For a valid submission the new row is approved exactly when the field is
  anything else, and it is then in the public feed at once.
\<close>

theorem private_only_exact_true:
  assumes "multer_err req = None" and "db_up ev"
    and "body_name req = JStr nm" and "1 \<le> length nm" and "length nm \<le> 120"
    and "body_note req = JStr nt" and "nt \<noteq> []"
  shows "isPrivate req = (body_private req = JStr ''true'')
         \<and> (\<exists>msg e w'. post_entries ev req w = (Submitted msg (c_id e) (JStr nm) (c_created_at e), w')
               \<and> table w' = table w @ [e]
               \<and> c_approved e = (body_private req \<noteq> JStr ''true'')
               \<and> (body_private req \<noteq> JStr ''true'' \<longrightarrow>
                    (\<exists>xs. get_entries ev w' = (Entries xs, w') \<and> public_view e \<in> set xs)))"
proof -
  obtain ps w1 where up: "upload_photos ev req w = (ps, w1)" by (cases "upload_photos ev req w")
  then have t: "table w1 = table w" using upload_photos_table by blast
  let ?e = "\<lparr>c_id = next_id w1, c_name = JStr nm, c_note = JStr nt, c_photos = ps,
             c_approved = (body_private req \<noteq> JStr ''true''), c_created_at = now ev\<rparr>"
  let ?w' = "w1\<lparr>table := table w1 @ [?e], next_id := Suc (next_id w1)\<rparr>"
  let ?msg = "if isPrivate req
              then ''Thank you! Your private message has been sent to the couple.''
              else ''Thank you for signing the guestbook!''"
  from assms(4) have "nm \<noteq> []" by auto
  with up assms have post: "post_entries ev req w =
      (Submitted ?msg (c_id ?e) (JStr nm) (c_created_at ?e), ?w')"
    by (simp add: post_entries_def handleUpload_def submit_def sql_insert_def Let_def isPrivate_def)
  have feed: "\<exists>xs. get_entries ev ?w' = (Entries xs, ?w') \<and> public_view ?e \<in> set xs"
    if "body_private req \<noteq> JStr ''true''"
  proof -
    from that have "?e \<in> set (filter c_approved (table ?w'))" by simp
    then have "?e \<in> set (order_desc (filter c_approved (table ?w')))"
      using order_desc_mset[of "filter c_approved (table ?w')"] by (metis mset_eq_setD)
    then show ?thesis using assms(2) by (simp add: get_entries_def)
  qed
  have "post_entries ev req w = (Submitted ?msg (c_id ?e) (JStr nm) (c_created_at ?e), ?w')
        \<and> table ?w' = table w @ [?e]
        \<and> c_approved ?e = (body_private req \<noteq> JStr ''true'')
        \<and> (body_private req \<noteq> JStr ''true'' \<longrightarrow>
             (\<exists>xs. get_entries ev ?w' = (Entries xs, ?w') \<and> public_view ?e \<in> set xs))"
    using post t feed by simp
  then have "\<exists>msg e w'. post_entries ev req w = (Submitted msg (c_id e) (JStr nm) (c_created_at e), w')
        \<and> table w' = table w @ [e]
        \<and> c_approved e = (body_private req \<noteq> JStr ''true'')
        \<and> (body_private req \<noteq> JStr ''true'' \<longrightarrow>
             (\<exists>xs. get_entries ev w' = (Entries xs, w') \<and> public_view e \<in> set xs))"
    by blast
  then show ?thesis by (simp add: isPrivate_def)
qed

theorem private_only_exact_true_witness:
  "multer_err sample_request = None \<and> db_up sample_env
   \<and> body_name sample_request = JStr ''Alex & Jo'' \<and> 1 \<le> length ''Alex & Jo''
   \<and> length ''Alex & Jo'' \<le> 120
   \<and> body_note sample_request = JStr ''Congrats!<3'' \<and> ''Congrats!<3'' \<noteq> []
   \<and> map c_approved (table (snd (post_entries sample_env (sample_request\<lparr>body_private := JStr ''true''\<rparr>) initial))) = [False]
   \<and> map c_approved (table (snd (post_entries sample_env (sample_request\<lparr>body_private := JStr ''True''\<rparr>) initial))) = [True]
   \<and> map c_approved (table (snd (post_entries sample_env (sample_request\<lparr>body_private := JStr ''1''\<rparr>) initial))) = [True]
   \<and> map c_approved (table (snd (post_entries sample_env (sample_request\<lparr>body_private := JBool True\<rparr>) initial))) = [True]
   \<and> map c_approved (table (snd (post_entries sample_env sample_request initial))) = [True]"
  using private_only_exact_true[of "sample_request\<lparr>body_private := JStr ''true''\<rparr>" sample_env "''Alex & Jo''" "''Congrats!<3''" initial]
        private_only_exact_true[of "sample_request\<lparr>body_private := JBool True\<rparr>" sample_env "''Alex & Jo''" "''Congrats!<3''" initial]
  by (simp add: server_eval)

section \<open>Properties of the exporter\<close>

subsection \<open>Escaping of user text\<close>

lemma replace_all_Nil: "replace_all c r [] = []"
  by (simp add: replace_all_def)

lemma replace_all_Cons:
  "replace_all c r (x # xs) = (if x = c then r else [x]) @ replace_all c r xs"
  by (simp add: replace_all_def)

lemma replace_all_append:
  "replace_all c r (xs @ ys) = replace_all c r xs @ replace_all c r ys"
  by (simp add: replace_all_def)

lemma escapeHtml_Nil: "escapeHtml [] = []"
  by (simp add: escapeHtml_def replace_all_Nil)

lemma escapeHtml_Cons: "escapeHtml (x # xs) = entity x @ escapeHtml xs"
  by (simp add: escapeHtml_def entity_def replace_all_Cons replace_all_append replace_all_Nil)

lemma escapeHtml_entities: "escapeHtml s = concat (map entity s)"
  by (induction s) (simp_all add: escapeHtml_Nil escapeHtml_Cons)

lemma markup_append: "markup (xs @ ys) = markup xs @ markup ys"
  by (simp add: markup_def)

lemma markup_entity: "markup (entity c) = []"
  by (simp add: markup_def entity_def)

lemma markup_escapeHtml: "markup (escapeHtml s) = []"
  by (induction s) (simp_all add: escapeHtml_Nil escapeHtml_Cons markup_append markup_entity, simp add: markup_def)

lemma renderEntry_shape:
  "\<exists>a b c. \<forall>n t. renderEntry xe (entry\<lparr>e_name := n, e_note := t\<rparr>) = a @ escapeHtml n @ b @ escapeHtml t @ c"
proof -
  define photos where "photos = concat (map img_tag (embeddedPhotos entry))"
  define a where "a = ''\<newline>    <div class=\"entry\">\<newline>      <div class=\"entry-header\">\<newline>        <h3 class=\"entry-name\">''"
  define b where "b = ''</h3>\<newline>        <time class=\"entry-date\">'' @ formatDate xe (e_created_at entry)
                      @ ''</time>\<newline>      </div>\<newline>      <p class=\"entry-note\">''"
  define c where "c = ''</p>\<newline>      ''
                      @ (if photos \<noteq> [] then ''<div class=\"entry-photos\">'' @ photos @ ''</div>'' else [])
                      @ ''\<newline>    </div>''"
  have "renderEntry xe (entry\<lparr>e_name := n, e_note := t\<rparr>) = a @ escapeHtml n @ b @ escapeHtml t @ c" for n t
    unfolding renderEntry_def Let_def a_def b_def c_def photos_def by simp
  then show ?thesis by blast
qed

lemma renderEntry_markup:
  "markup (renderEntry xe (entry\<lparr>e_name := n, e_note := t\<rparr>)) = markup (renderEntry xe entry)"
proof -
  obtain a b c where
    shape: "\<And>n t. renderEntry xe (entry\<lparr>e_name := n, e_note := t\<rparr>) = a @ escapeHtml n @ b @ escapeHtml t @ c"
    using renderEntry_shape[where xe = xe and entry = entry] by blast
  have m: "markup (renderEntry xe (entry\<lparr>e_name := n', e_note := t'\<rparr>)) = markup a @ markup b @ markup c"
    for n' t'
    by (simp add: shape markup_append markup_escapeHtml)
  from m[where n' = n and t' = t] m[where n' = "e_name entry" and t' = "e_note entry"]
  show ?thesis by simp
qed

lemma markup_join:
  "markup (join sep xs) = join (markup sep) (map markup xs)"
  by (induction sep xs rule: join.induct) (simp_all add: markup_append markup_def)

lemma photo_count_update:
  "foldl (\<lambda>n e. n + length (embeddedPhotos e)) k (map (\<lambda>e. e\<lparr>e_name := nm e, e_note := nt e\<rparr>) es)
     = foldl (\<lambda>n e. n + length (embeddedPhotos e)) k es"
  by (induction es arbitrary: k) simp_all

lemma buildHTML_markup:
  "markup (buildHTML xe (map (\<lambda>e. e\<lparr>e_name := nm e, e_note := nt e\<rparr>) es) title)
     = markup (buildHTML xe es title)"
  by (simp add: buildHTML_def Let_def markup_append markup_join photo_count_update comp_def
        renderEntry_markup)

text \<open>
  Claim C5. \<open>escapeHtml\<close> replaces each of \<open>&\<close>, \<open><\<close>, \<open>>\<close> and the double quote by its
  entity, once, and leaves no \<open><\<close>, \<open>>\<close> or double quote in its result. \<open>renderEntry\<close>
  embeds the name and the note of an entry only in that escaped form, so the markup
  characters of a rendered entry, and of a whole document, do not depend on the names
  and the notes. The note
  \<open><script>alert(1)</script>\<close> is rendered as \<open>&lt;script&gt;alert(1)&lt;/script&gt;\<close>.
\<close>

theorem escape_before_embed:
  "escapeHtml s = concat (map entity s)
   \<and> markup (escapeHtml s) = []
   \<and> (\<exists>a b c. \<forall>n t. renderEntry xe (entry\<lparr>e_name := n, e_note := t\<rparr>)
                        = a @ escapeHtml n @ b @ escapeHtml t @ c)
   \<and> markup (renderEntry xe (entry\<lparr>e_name := n, e_note := t\<rparr>)) = markup (renderEntry xe entry)
   \<and> markup (buildHTML xe (map (\<lambda>e. e\<lparr>e_name := nm e, e_note := nt e\<rparr>) es) title)
       = markup (buildHTML xe es title)
   \<and> escapeHtml ''<script>alert(1)</script>'' = ''&lt;script&gt;alert(1)&lt;/script&gt;''"
proof -
  have "escapeHtml ''<script>alert(1)</script>'' = ''&lt;script&gt;alert(1)&lt;/script&gt;''"
    by (simp add: escapeHtml_entities entity_def)
  then show ?thesis
    using escapeHtml_entities[of s] markup_escapeHtml[of s]
      renderEntry_shape[where xe = xe and entry = entry]
      renderEntry_markup[where xe = xe and entry = entry and n = n and t = t]
      buildHTML_markup[where xe = xe and nm = nm and nt = nt and es = es and title = title]
    by blast
qed

theorem escape_before_embed_witness:
  \<open>renderEntry sample_xenv script_entry =
     ''\<newline>    <div class="entry">\<newline>      <div class="entry-header">\<newline>        <h3 class="entry-name">Alex &amp; Jo</h3>\<newline>        <time class="entry-date">2025-06-01T12:00:00.000Z</time>\<newline>      </div>\<newline>      <p class="entry-note">&lt;script&gt;alert(1)&lt;/script&gt;</p>\<newline>      \<newline>    </div>''
   \<and> markup (renderEntry sample_xenv (script_entry\<lparr>e_name := [], e_note := []\<rparr>))
       = markup (renderEntry sample_xenv script_entry)\<close>
proof -
  have \<open>renderEntry sample_xenv script_entry =
     ''\<newline>    <div class="entry">\<newline>      <div class="entry-header">\<newline>        <h3 class="entry-name">Alex &amp; Jo</h3>\<newline>        <time class="entry-date">2025-06-01T12:00:00.000Z</time>\<newline>      </div>\<newline>      <p class="entry-note">&lt;script&gt;alert(1)&lt;/script&gt;</p>\<newline>      \<newline>    </div>''\<close>
    by (simp add: renderEntry_def script_entry_def sample_xenv_def escapeHtml_entities entity_def)
  then show ?thesis
    using escape_before_embed[where xe = sample_xenv and entry = script_entry and n = "[]" and t = "[]"]
    by blast
qed

subsection \<open>The download loops\<close>

lemma downloadImage_fst:
  "fst (downloadImage xe k url entryId photoIndex fs) = tried xe k url entryId photoIndex"
  by (simp add: tried_def downloadImage_def Let_def split: option.splits)

lemma downloadImage_frame:
  "data_json (snd (downloadImage xe k url entryId photoIndex fs)) = data_json fs
   \<and> html_files (snd (downloadImage xe k url entryId photoIndex fs)) = html_files fs"
  by (simp add: downloadImage_def Let_def split: option.splits)

lemma download_photos_spec:
  "download_photos xe entryId urls i embedded t fs = (emb, t', fs') \<Longrightarrow>
     emb = embedded @ map fst (List.map_filter (\<lambda>r. r) (outcomes xe entryId urls i t))
     \<and> t' = t + length urls
     \<and> data_json fs' = data_json fs \<and> html_files fs' = html_files fs"
proof (induction urls arbitrary: i embedded t fs)
  case Nil
  then show ?case by (simp add: List.map_filter_simps)
next
  case (Cons url rest)
  obtain result fs1 where d: "downloadImage xe (Suc t) url entryId (i + 1) fs = (result, fs1)"
    by (cases "downloadImage xe (Suc t) url entryId (i + 1) fs")
  have r: "result = tried xe (Suc t) url entryId (i + 1)"
    using downloadImage_fst[of xe "Suc t" url entryId "i + 1" fs] d by simp
  have f: "data_json fs1 = data_json fs \<and> html_files fs1 = html_files fs"
    using downloadImage_frame[of xe "Suc t" url entryId "i + 1" fs] d by simp
  show ?case
  proof (cases result)
    case None
    with Cons.prems d have "download_photos xe entryId rest (i + 1) embedded (Suc t) fs1 = (emb, t', fs')"
      by simp
    from Cons.IH[OF this] None r f show ?thesis
      by (simp add: List.map_filter_simps)
  next
    case (Some p)
    obtain dataUri filename where p: "p = (dataUri, filename)" by (cases p)
    with Some Cons.prems d
    have "download_photos xe entryId rest (i + 1) (embedded @ [dataUri]) (Suc t) fs1 = (emb, t', fs')"
      by simp
    from Cons.IH[OF this] Some p r f show ?thesis
      by (simp add: List.map_filter_simps)
  qed
qed

lemma download_entries_spec:
  "download_entries xe rows t fs = (entries, t', fs') \<Longrightarrow>
     entries = embed_all xe rows t
     \<and> t' = t + sum_list (map photo_count rows)
     \<and> data_json fs' = data_json fs \<and> html_files fs' = html_files fs"
proof (induction rows arbitrary: t fs entries t' fs')
  case Nil
  then show ?case by simp
next
  case (Cons r rs)
  define step where "step =
    (case e_photos r of
       None \<Rightarrow> ([], t, fs)
     | Some photos \<Rightarrow>
         if length photos > 0 then download_photos xe (e_id r) photos 0 [] t fs else ([], t, fs))"
  obtain embedded t1 fs1 where s: "step = (embedded, t1, fs1)" by (cases step) auto
  have spec: "embedded = embedded_of xe t r \<and> t1 = t + photo_count r
              \<and> data_json fs1 = data_json fs \<and> html_files fs1 = html_files fs"
  proof (cases "e_photos r")
    case None
    with s show ?thesis by (simp add: step_def embedded_of_def photo_count_def)
  next
    case (Some photos)
    show ?thesis
    proof (cases "photos = []")
      case True
      with s Some show ?thesis
        by (simp add: step_def embedded_of_def photo_count_def List.map_filter_simps)
    next
      case False
      with s Some have "download_photos xe (e_id r) photos 0 [] t fs = (embedded, t1, fs1)"
        by (simp add: step_def)
      from download_photos_spec[OF this] Some show ?thesis
        by (simp add: embedded_of_def photo_count_def)
    qed
  qed
  obtain es t2 fs2 where rec: "download_entries xe rs t1 fs1 = (es, t2, fs2)"
    by (cases "download_entries xe rs t1 fs1") auto
  from Cons.prems s rec have res: "entries = with_embedded r embedded # es" "t' = t2" "fs' = fs2"
    by (simp_all add: step_def[symmetric])
  from Cons.IH[OF rec] spec res show ?case by (simp add: add.assoc)
qed



lemma to_json_with_embedded:
  "to_json (with_embedded r emb) = to_json r"
  by (simp add: to_json_def with_embedded_def)

lemma main_completes:
  assumes "can_mkdir xe" and "select_all xe = Some rows"
    and "writable xe ''guestbook-data.json''"
    and "list_all (writable xe)
           [''time-capsule-full-with-tests.html'', ''time-capsule-public-with-tests.html'',
            ''time-capsule-full.html'', ''time-capsule-public.html'']"
  shows "\<exists>fs'. main xe fs =
             (Completed (embed_all xe rows 0, export_variants (embed_all xe rows 0),
                         sum_list (map photo_count rows)), fs')
           \<and> data_json fs' = Some (map to_json rows)
           \<and> map (html_files fs') (map v_file (export_variants (embed_all xe rows 0)))
               = map (\<lambda>v. Some (buildHTML xe (v_data v) (v_title v))) (export_variants (embed_all xe rows 0))"
proof -
  obtain entries t fs1 where d: "download_entries xe rows 0 fs = (entries, t, fs1)"
    by (cases "download_entries xe rows 0 fs") auto
  from download_entries_spec[OF d]
  have e: "entries = embed_all xe rows 0" "t = sum_list (map photo_count rows)" by simp_all
  have j: "map to_json (embed_all xe rows t0) = map to_json rows" for t0
    by (induction rows arbitrary: t0) (simp_all add: to_json_with_embedded)
  from assms d e show ?thesis
    by (simp add: main_def Let_def export_variants_def j)
qed



lemma img_tag_nonempty: "img_tag src \<noteq> []"
  by (simp add: img_tag_def)


subsection \<open>A photo that cannot be fetched\<close>




subsection \<open>Download and re-run\<close>

lemma ext_of_candidates:
  "inherited xe ct = None \<Longrightarrow> ext_of xe ct \<in> set candidates"
  by (simp add: ext_of_def candidates_def)

lemma ext_of_known:
  "ct \<in> set known_types \<Longrightarrow> mime_of (ext_of xe ct) = ct"
  by (auto simp: ext_of_def known_types_def mime_of_def)

lemma ext_of_unknown:
  "ct \<notin> set known_types \<Longrightarrow> inherited xe ct = None \<Longrightarrow> ext_of xe ct = ''.jpg''"
  by (simp add: ext_of_def known_types_def)

lemma load_after_write:
  assumes "ext \<in> set candidates"
    and "list_all (\<lambda>e. photo_files fs (base @ e) = None) (takeWhile (\<lambda>e. e \<noteq> ext) candidates)"
    and "base = ''entry-'' @ show_nat entryId @ ''-photo-'' @ show_nat (i + 1)"
  shows "load_photo (fs\<lparr>photo_files := (photo_files fs)(base @ ext \<mapsto> buf)\<rparr>) entryId embedded i
           = embedded @ [''data:'' @ mime_of ext @ '';base64,'' @ base64 buf]"
proof -
  from assms(1) consider "ext = ''.jpg''" | "ext = ''.png''" | "ext = ''.gif''" | "ext = ''.webp''"
    by (auto simp: candidates_def)
  then show ?thesis
  proof cases
    case 1
    with assms(3) show ?thesis
      by (simp add: load_photo_def Let_def extname_def mime_of_def)
  next
    case 2
    with assms(2,3) show ?thesis
      by (simp add: load_photo_def Let_def extname_def mime_of_def candidates_def)
  next
    case 3
    with assms(2,3) show ?thesis
      by (simp add: load_photo_def Let_def extname_def mime_of_def candidates_def)
  next
    case 4
    with assms(2,3) show ?thesis
      by (simp add: load_photo_def Let_def extname_def mime_of_def candidates_def)
  qed
qed

text \<open>
  Claim C8, amended. Let a fetch succeed with a body, for the photo with 1-based index
  \<open>i + 1\<close> of an entry, and let the file be writable. When the response's media type
  is not the name of a property that every object inherits, and no file with the same base
  name and an extension probed before the written one is in the photos directory, then:
  the extension is one of \<open>.jpg\<close>, \<open>.png\<close>, \<open>.gif\<close>, \<open>.webp\<close> (\<open>.jpg\<close> for a
  type the script does not know); the download writes the body under
  \<open>entry-<id>-photo-<n><ext>\<close>; and the re-run from the saved files finds that file and
  embeds the same bytes, under the media type of the extension (which is the response's
  for a known type).
\<close>

theorem photo_roundtrip:
  assumes "fetch xe k url = Some res" and "ok res" and "body res = Some buf"
    and "ext = ext_of xe (content_type_of res)"
    and "base = photo_base entryId (i + 1)"
    and "writable xe (''photos/'' @ base @ ext)"
    and "inherited xe (content_type_of res) = None"
    and "list_all (\<lambda>e. photo_files fs (base @ e) = None) (takeWhile (\<lambda>e. e \<noteq> ext) candidates)"
  shows "ext \<in> set candidates
         \<and> (if content_type_of res \<in> set known_types then mime_of ext = content_type_of res
            else ext = ''.jpg'')
         \<and> (\<exists>fs'. downloadImage xe k url entryId (i + 1) fs
                     = (Some (''data:'' @ content_type_of res @ '';base64,'' @ base64 buf, base @ ext), fs')
                 \<and> photo_files fs' (base @ ext) = Some buf
                 \<and> load_photo fs' entryId embedded i
                     = embedded @ [''data:'' @ mime_of ext @ '';base64,'' @ base64 buf])"
proof -
  let ?fs' = "fs\<lparr>photo_files := (photo_files fs)(base @ ext \<mapsto> buf)\<rparr>"
  have c: "ext \<in> set candidates"
    using assms(4,7) by (simp add: ext_of_candidates)
  have m: "if content_type_of res \<in> set known_types then mime_of ext = content_type_of res
           else ext = ''.jpg''"
    using assms(4,7) by (simp add: ext_of_known ext_of_unknown)
  have d: "downloadImage xe k url entryId (i + 1) fs
             = (Some (''data:'' @ content_type_of res @ '';base64,'' @ base64 buf, base @ ext), ?fs')"
    using assms(1-6)
    by (simp add: downloadImage_def Let_def content_type_of_def photo_base_def)
  have l: "load_photo ?fs' entryId embedded i
             = embedded @ [''data:'' @ mime_of ext @ '';base64,'' @ base64 buf]"
    using load_after_write[OF c assms(8)] assms(5) by (simp add: photo_base_def)
  from c m d l show ?thesis by simp
qed

theorem photo_roundtrip_witness:
  "fetch run_xenv 1 ''https://cdn.example/a.jpg''
     = Some \<lparr>ok = True, body = Some [9, 9, 9], content_type = Some ''image/png''\<rparr>
   \<and> ext_of run_xenv ''image/png'' = ''.png''
   \<and> photo_base 5 1 = ''entry-5-photo-1''
   \<and> writable run_xenv ''photos/entry-5-photo-1.png''
   \<and> inherited run_xenv ''image/png'' = None
   \<and> list_all (\<lambda>e. photo_files no_files (''entry-5-photo-1'' @ e) = None)
        (takeWhile (\<lambda>e. e \<noteq> ''.png'') candidates)
   \<and> (\<exists>fs'. downloadImage run_xenv 1 ''https://cdn.example/a.jpg'' 5 1 no_files
               = (Some (''data:image/png;base64,CQkJ'', ''entry-5-photo-1.png''), fs')
            \<and> photo_files fs' ''entry-5-photo-1.png'' = Some [9, 9, 9]
            \<and> load_photo fs' 5 [] 0 = [''data:image/png;base64,CQkJ''])"
proof -
  let ?res = "\<lparr>ok = True, body = Some [9, 9, 9], content_type = Some ''image/png''\<rparr>"
  have h1: "fetch run_xenv 1 ''https://cdn.example/a.jpg'' = Some ?res"
    by (simp add: run_xenv_def)
  have h2: "ok ?res" and h3: "body ?res = Some [9, 9, 9]"
    and ct: "content_type_of ?res = ''image/png''"
    by (simp_all add: content_type_of_def)
  have e4: "ext_of run_xenv ''image/png'' = ''.png''"
    by (simp add: ext_of_def)
  have e5: "photo_base 5 1 = ''entry-5-photo-1''"
    by (simp add: photo_base_def show_nat.simps digit_def)
  have e6: "writable run_xenv ''photos/entry-5-photo-1.png''"
    by (simp add: run_xenv_def sample_xenv_def)
  have e7: "inherited run_xenv ''image/png'' = None"
    by (simp add: run_xenv_def sample_xenv_def)
  have h8: "list_all (\<lambda>e. photo_files no_files (''entry-5-photo-1'' @ e) = None)
        (takeWhile (\<lambda>e. e \<noteq> ''.png'') candidates)"
    by (simp add: candidates_def no_files_def)
  have h4: "''.png'' = ext_of run_xenv (content_type_of ?res)" by (simp add: ct e4)
  have h5: "''entry-5-photo-1'' = photo_base 5 (0 + 1)" using e5 by simp
  have h6: "writable run_xenv (''photos/'' @ ''entry-5-photo-1'' @ ''.png'')" using e6 by simp
  have h7: "inherited run_xenv (content_type_of ?res) = None" by (simp add: ct e7)
  have m: "mime_of ''.png'' = ''image/png''" by (simp add: mime_of_def)
  from photo_roundtrip[OF h1 h2 h3 h4 h5 h6 h7 h8, of "[]"]
  have r: "\<exists>fs'. downloadImage run_xenv 1 ''https://cdn.example/a.jpg'' 5 1 no_files
               = (Some (''data:image/png;base64,CQkJ'', ''entry-5-photo-1.png''), fs')
            \<and> photo_files fs' ''entry-5-photo-1.png'' = Some [9, 9, 9]
            \<and> load_photo fs' 5 [] 0 = [''data:image/png;base64,CQkJ'']"
    by (simp add: ct m b64_char_def)
  from h1 e4 e5 e6 e7 h8 r show ?thesis by (intro conjI)
qed

text \<open>
  Claim C8 as stated fails twice. With \<open>entry-5-photo-1.jpg\<close> left by an earlier run, a
  download that writes \<open>entry-5-photo-1.png\<close> is followed by a re-run that embeds the old
  file's bytes. And a response of media type \<open>constructor\<close> is saved under a name that
  ends in the text of the inherited property, which the re-run does not find.
\<close>

theorem photo_roundtrip_counterexample:
  "fst (downloadImage run_xenv 1 ''https://cdn.example/a.jpg'' 5 1 stale_files)
     = Some (''data:image/png;base64,CQkJ'', ''entry-5-photo-1.png'')
   \<and> load_photo (snd (downloadImage run_xenv 1 ''https://cdn.example/a.jpg'' 5 1 stale_files)) 5 [] 0
     = [''data:image/jpeg;base64,AQID'']
   \<and> fst (downloadImage odd_xenv 1 ''https://cdn.example/a.jpg'' 5 1 no_files)
     = Some (''data:constructor;base64,CQkJ'', ''entry-5-photo-1function Object() { [native code] }'')
   \<and> load_photo (snd (downloadImage odd_xenv 1 ''https://cdn.example/a.jpg'' 5 1 no_files)) 5 [] 0 = []"
  by (simp add: downloadImage_def ext_of_def run_xenv_def odd_xenv_def sample_xenv_def stale_files_def
        no_files_def load_photo_def extname_def show_nat.simps digit_def b64_char_def Let_def)

subsection \<open>The variants\<close>

lemma first_three:
  "3 \<le> length es \<Longrightarrow> [e_id (es ! 0), e_id (es ! 1), e_id (es ! 2)] = map e_id (take 3 es)"
proof -
  assume "3 \<le> length es"
  then obtain a b c rest where "es = a # b # c # rest"
    by (metis Suc_le_length_iff numeral_3_eq_3)
  then show ?thesis by simp
qed

lemma generate_html_spec:
  assumes "data_json fs = Some loaded" and "3 \<le> length loaded"
    and "list_all (writable xe)
           [''time-capsule-all-with-tests.html'', ''time-capsule-full.html'', ''time-capsule-public.html'']"
  shows "\<exists>variants fs'. generate_html xe fs = (Completed variants, fs')
           \<and> map v_file variants
                = [''time-capsule-all-with-tests.html'', ''time-capsule-full.html'', ''time-capsule-public.html'']
           \<and> map v_data variants
                = (let entries = map (load_photos fs) loaded;
                       clean = filter (\<lambda>e. e_id e \<notin> set (map e_id (take 3 entries))) entries
                   in [entries, clean, filter e_approved clean])
           \<and> map (html_files fs') (map v_file variants)
                = map (\<lambda>v. Some (buildHTML xe (v_data v) (v_title v))) variants
           \<and> html_files fs' ''time-capsule-public-with-tests.html''
                = html_files fs ''time-capsule-public-with-tests.html''"
proof -
  define entries where "entries = map (load_photos fs) loaded"
  define clean where "clean = filter (\<lambda>e. e_id e \<notin> set (map e_id (take 3 entries))) entries"
  have len: "3 \<le> length entries" using assms(2) by (simp add: entries_def)
  have ids: "[e_id (entries ! 0), e_id (entries ! 1), e_id (entries ! 2)] = map e_id (take 3 entries)"
    by (rule first_three[OF len])
  have v: "html_variants entries =
      [\<lparr>v_file = ''time-capsule-all-with-tests.html'', v_data = entries,
        v_title = ''Wedding Guestbook '' @ em_dash @ '' Complete Archive (incl. test posts)''\<rparr>,
       \<lparr>v_file = ''time-capsule-full.html'', v_data = clean,
        v_title = ''Wedding Guestbook '' @ em_dash @ '' Complete Archive''\<rparr>,
       \<lparr>v_file = ''time-capsule-public.html'', v_data = filter e_approved clean,
        v_title = ''Wedding Guestbook''\<rparr>]"
    unfolding html_variants_def Let_def ids clean_def by simp
  have not_few: "\<not> length (map (load_photos fs) loaded) < 3" using assms(2) by simp
  have g: "generate_html xe fs =
             (let (written, fs1) = write_variants xe (html_variants entries) fs
              in if written then (Completed (html_variants entries), fs1) else (Failed, fs1))"
    unfolding generate_html_def entries_def using assms(1) not_few by (simp add: Let_def)
  obtain fs' where w: "write_variants xe (html_variants entries) fs = (True, fs')"
    and files: "map (html_files fs') (map v_file (html_variants entries))
                  = map (\<lambda>v. Some (buildHTML xe (v_data v) (v_title v))) (html_variants entries)"
    and other: "html_files fs' ''time-capsule-public-with-tests.html''
                  = html_files fs ''time-capsule-public-with-tests.html''"
    using assms(3) unfolding v by simp
  have res: "generate_html xe fs = (Completed (html_variants entries), fs')"
    using g w by simp
  have f: "map v_file (html_variants entries)
             = [''time-capsule-all-with-tests.html'', ''time-capsule-full.html'', ''time-capsule-public.html'']"
    and d: "map v_data (html_variants entries) = [entries, clean, filter e_approved clean]"
    by (simp_all add: v)
  have l: "(let entries = map (load_photos fs) loaded;
                clean = filter (\<lambda>e. e_id e \<notin> set (map e_id (take 3 entries))) entries
            in [entries, clean, filter e_approved clean]) = [entries, clean, filter e_approved clean]"
    by (simp add: Let_def entries_def clean_def)
  from res f d files other show ?thesis
    unfolding l by (intro exI conjI)
qed

lemma generate_html_few:
  "data_json fs = Some loaded \<Longrightarrow> length loaded < 3 \<Longrightarrow> generate_html xe fs = (Failed, fs)"
  by (simp add: generate_html_def Let_def)

lemma embed_all_json: "map to_json (embed_all xe rows t) = map to_json rows"
  by (induction rows arbitrary: t) (simp_all add: to_json_with_embedded)

text \<open>
  Claim C6, amended. When the directories can be created, the database answers and the
  output files can be written, the export run renders four documents: all entries, the
  approved entries, the entries after the first three, and the approved entries after the
  first three. When at least three entries are loaded and its three files can be written,
  the run from the saved files renders three documents: all entries, the entries whose id
  is not the id of one of the first three, and the approved ones among those; it writes
  no public document that includes the test entries. When fewer than three entries are
  loaded, the run from the saved files fails and writes nothing.
\<close>

theorem exporter_variants:
  "(can_mkdir xe \<and> select_all xe = Some rows \<and> writable xe ''guestbook-data.json''
      \<and> list_all (writable xe)
           [''time-capsule-full-with-tests.html'', ''time-capsule-public-with-tests.html'',
            ''time-capsule-full.html'', ''time-capsule-public.html'']
    \<longrightarrow> (\<exists>entries variants total fs'.
           main xe fs = (Completed (entries, variants, total), fs')
           \<and> map to_json entries = map to_json rows
           \<and> map v_file variants
                = [''time-capsule-full-with-tests.html'', ''time-capsule-public-with-tests.html'',
                   ''time-capsule-full.html'', ''time-capsule-public.html'']
           \<and> map v_data variants
                = [entries, filter e_approved entries, drop 3 entries, filter e_approved (drop 3 entries)]
           \<and> map (html_files fs') (map v_file variants)
                = map (\<lambda>v. Some (buildHTML xe (v_data v) (v_title v))) variants))
   \<and> (data_json fs = Some loaded \<and> 3 \<le> length loaded
      \<and> list_all (writable xe)
           [''time-capsule-all-with-tests.html'', ''time-capsule-full.html'', ''time-capsule-public.html'']
    \<longrightarrow> (\<exists>variants fs'.
           generate_html xe fs = (Completed variants, fs')
           \<and> map v_file variants
                = [''time-capsule-all-with-tests.html'', ''time-capsule-full.html'', ''time-capsule-public.html'']
           \<and> map v_data variants
                = (let entries = map (load_photos fs) loaded;
                       clean = filter (\<lambda>e. e_id e \<notin> set (map e_id (take 3 entries))) entries
                   in [entries, clean, filter e_approved clean])
           \<and> map (html_files fs') (map v_file variants)
                = map (\<lambda>v. Some (buildHTML xe (v_data v) (v_title v))) variants
           \<and> html_files fs' ''time-capsule-public-with-tests.html''
                = html_files fs ''time-capsule-public-with-tests.html''))
   \<and> (data_json fs = Some loaded \<and> length loaded < 3 \<longrightarrow> generate_html xe fs = (Failed, fs))"
proof (intro conjI impI)
  assume a: "can_mkdir xe \<and> select_all xe = Some rows \<and> writable xe ''guestbook-data.json''
      \<and> list_all (writable xe)
           [''time-capsule-full-with-tests.html'', ''time-capsule-public-with-tests.html'',
            ''time-capsule-full.html'', ''time-capsule-public.html'']"
  let ?entries = "embed_all xe rows 0"
  from a main_completes[of xe rows fs] obtain fs' where
    m: "main xe fs = (Completed (?entries, export_variants ?entries, sum_list (map photo_count rows)), fs')"
    and html: "map (html_files fs') (map v_file (export_variants ?entries))
               = map (\<lambda>v. Some (buildHTML xe (v_data v) (v_title v))) (export_variants ?entries)"
    by blast
  have f: "map v_file (export_variants ?entries)
             = [''time-capsule-full-with-tests.html'', ''time-capsule-public-with-tests.html'',
                ''time-capsule-full.html'', ''time-capsule-public.html'']"
    and d: "map v_data (export_variants ?entries)
             = [?entries, filter e_approved ?entries, drop 3 ?entries, filter e_approved (drop 3 ?entries)]"
    by (simp_all add: export_variants_def Let_def)
  have "main xe fs = (Completed (?entries, export_variants ?entries, sum_list (map photo_count rows)), fs')
           \<and> map to_json ?entries = map to_json rows
           \<and> map v_file (export_variants ?entries)
                = [''time-capsule-full-with-tests.html'', ''time-capsule-public-with-tests.html'',
                   ''time-capsule-full.html'', ''time-capsule-public.html'']
           \<and> map v_data (export_variants ?entries)
                = [?entries, filter e_approved ?entries, drop 3 ?entries, filter e_approved (drop 3 ?entries)]
           \<and> map (html_files fs') (map v_file (export_variants ?entries))
                = map (\<lambda>v. Some (buildHTML xe (v_data v) (v_title v))) (export_variants ?entries)"
    using m html f d embed_all_json[of xe rows 0] by simp
  then show "\<exists>entries variants total fs'.
           main xe fs = (Completed (entries, variants, total), fs')
           \<and> map to_json entries = map to_json rows
           \<and> map v_file variants
                = [''time-capsule-full-with-tests.html'', ''time-capsule-public-with-tests.html'',
                   ''time-capsule-full.html'', ''time-capsule-public.html'']
           \<and> map v_data variants
                = [entries, filter e_approved entries, drop 3 entries, filter e_approved (drop 3 entries)]
           \<and> map (html_files fs') (map v_file variants)
                = map (\<lambda>v. Some (buildHTML xe (v_data v) (v_title v))) variants"
    by (intro exI)
next
  assume b: "data_json fs = Some loaded \<and> 3 \<le> length loaded
      \<and> list_all (writable xe)
           [''time-capsule-all-with-tests.html'', ''time-capsule-full.html'', ''time-capsule-public.html'']"
  then have b1: "data_json fs = Some loaded" and b2: "3 \<le> length loaded"
    and b3: "list_all (writable xe)
           [''time-capsule-all-with-tests.html'', ''time-capsule-full.html'', ''time-capsule-public.html'']"
    by simp_all
  show "\<exists>variants fs'.
           generate_html xe fs = (Completed variants, fs')
           \<and> map v_file variants
                = [''time-capsule-all-with-tests.html'', ''time-capsule-full.html'', ''time-capsule-public.html'']
           \<and> map v_data variants
                = (let entries = map (load_photos fs) loaded;
                       clean = filter (\<lambda>e. e_id e \<notin> set (map e_id (take 3 entries))) entries
                   in [entries, clean, filter e_approved clean])
           \<and> map (html_files fs') (map v_file variants)
                = map (\<lambda>v. Some (buildHTML xe (v_data v) (v_title v))) variants
           \<and> html_files fs' ''time-capsule-public-with-tests.html''
                = html_files fs ''time-capsule-public-with-tests.html''"
    by (rule generate_html_spec[OF b1 b2 b3])
next
  assume "data_json fs = Some loaded \<and> length loaded < 3"
  then show "generate_html xe fs = (Failed, fs)"
    by (simp add: generate_html_few)
qed

theorem exporter_variants_witness:
  "can_mkdir run_xenv \<and> select_all run_xenv = Some sample_rows
   \<and> writable run_xenv ''guestbook-data.json''
   \<and> list_all (writable run_xenv)
        [''time-capsule-full-with-tests.html'', ''time-capsule-public-with-tests.html'',
         ''time-capsule-full.html'', ''time-capsule-public.html'']
   \<and> data_json json_only = Some (map to_json sample_rows)
   \<and> 3 \<le> length (map to_json sample_rows)
   \<and> list_all (writable run_xenv)
        [''time-capsule-all-with-tests.html'', ''time-capsule-full.html'', ''time-capsule-public.html'']
   \<and> (\<exists>entries variants total fs'.
         main run_xenv json_only = (Completed (entries, variants, total), fs')
         \<and> map v_file variants
              = [''time-capsule-full-with-tests.html'', ''time-capsule-public-with-tests.html'',
                 ''time-capsule-full.html'', ''time-capsule-public.html'']
         \<and> map v_data variants
              = [entries, filter e_approved entries, drop 3 entries, filter e_approved (drop 3 entries)])
   \<and> (\<exists>variants fs'.
         generate_html run_xenv json_only = (Completed variants, fs')
         \<and> map v_file variants
              = [''time-capsule-all-with-tests.html'', ''time-capsule-full.html'', ''time-capsule-public.html''])
   \<and> data_json two_saved = Some (take 2 (map to_json sample_rows))
   \<and> length (take 2 (map to_json sample_rows)) < 3
   \<and> generate_html run_xenv two_saved = (Failed, two_saved)"
proof -
  have a: "can_mkdir run_xenv \<and> select_all run_xenv = Some sample_rows
   \<and> writable run_xenv ''guestbook-data.json''
   \<and> list_all (writable run_xenv)
        [''time-capsule-full-with-tests.html'', ''time-capsule-public-with-tests.html'',
         ''time-capsule-full.html'', ''time-capsule-public.html'']"
    by (simp add: run_xenv_def sample_xenv_def)
  have b: "data_json json_only = Some (map to_json sample_rows)
   \<and> 3 \<le> length (map to_json sample_rows)
   \<and> list_all (writable run_xenv)
        [''time-capsule-all-with-tests.html'', ''time-capsule-full.html'', ''time-capsule-public.html'']"
    by (simp add: run_xenv_def sample_xenv_def json_only_def no_files_def sample_rows_def)
  have c: "data_json two_saved = Some (take 2 (map to_json sample_rows))
           \<and> length (take 2 (map to_json sample_rows)) < 3"
    by (simp add: two_saved_def no_files_def sample_rows_def)
  note few = exporter_variants[of run_xenv sample_rows two_saved "take 2 (map to_json sample_rows)",
                THEN conjunct2, THEN conjunct2, THEN mp, OF c]
  note t = exporter_variants[of run_xenv sample_rows json_only "map to_json sample_rows"]
  from t[THEN conjunct1, THEN mp, OF a] obtain entries variants total fs' where
    m: "main run_xenv json_only = (Completed (entries, variants, total), fs')"
       "map v_file variants
              = [''time-capsule-full-with-tests.html'', ''time-capsule-public-with-tests.html'',
                 ''time-capsule-full.html'', ''time-capsule-public.html'']"
       "map v_data variants
              = [entries, filter e_approved entries, drop 3 entries, filter e_approved (drop 3 entries)]"
    by auto
  from t[THEN conjunct2, THEN conjunct1, THEN mp, OF b] obtain variants2 fs2 where
    g: "generate_html run_xenv json_only = (Completed variants2, fs2)"
       "map v_file variants2
              = [''time-capsule-all-with-tests.html'', ''time-capsule-full.html'', ''time-capsule-public.html'']"
    by auto
  from m have 1: "\<exists>entries variants total fs'.
         main run_xenv json_only = (Completed (entries, variants, total), fs')
         \<and> map v_file variants
              = [''time-capsule-full-with-tests.html'', ''time-capsule-public-with-tests.html'',
                 ''time-capsule-full.html'', ''time-capsule-public.html'']
         \<and> map v_data variants
              = [entries, filter e_approved entries, drop 3 entries, filter e_approved (drop 3 entries)]"
    by (intro exI conjI)
  from g have 2: "\<exists>variants fs'.
         generate_html run_xenv json_only = (Completed variants, fs')
         \<and> map v_file variants
              = [''time-capsule-all-with-tests.html'', ''time-capsule-full.html'', ''time-capsule-public.html'']"
    by (intro exI conjI)
  from a b 1 2 c few show ?thesis by (intro conjI) (elim conjE, assumption)+
qed

text \<open>
  Claim C6 as stated fails on the run from the saved files: on the five sample entries it
  renders three documents, and none named \<open>time-capsule-public-with-tests.html\<close>.
\<close>

theorem exporter_variants_counterexample:
  "map_option (map v_file) (completed (fst (generate_html run_xenv json_only)))
     = Some [''time-capsule-all-with-tests.html'', ''time-capsule-full.html'', ''time-capsule-public.html'']
   \<and> map_option length (completed (fst (generate_html run_xenv json_only))) = Some 3
   \<and> html_files (snd (generate_html run_xenv json_only)) ''time-capsule-public-with-tests.html'' = None"
proof -
  have 1: "data_json json_only = Some (map to_json sample_rows)"
    by (simp add: json_only_def no_files_def)
  have 2: "3 \<le> length (map to_json sample_rows)"
    by (simp add: sample_rows_def)
  have 3: "list_all (writable run_xenv)
           [''time-capsule-all-with-tests.html'', ''time-capsule-full.html'', ''time-capsule-public.html'']"
    by (simp add: run_xenv_def sample_xenv_def)
  from generate_html_spec[OF 1 2 3] have "\<exists>variants fs'.
      generate_html run_xenv json_only = (Completed variants, fs')
      \<and> map v_file variants
           = [''time-capsule-all-with-tests.html'', ''time-capsule-full.html'', ''time-capsule-public.html'']
      \<and> html_files fs' ''time-capsule-public-with-tests.html''
           = html_files json_only ''time-capsule-public-with-tests.html''"
    apply (elim exE conjE)
    apply (intro exI conjI)
      apply assumption+
    done
  then obtain variants fs' where
    g: "generate_html run_xenv json_only = (Completed variants, fs')"
    and f: "map v_file variants
              = [''time-capsule-all-with-tests.html'', ''time-capsule-full.html'', ''time-capsule-public.html'']"
    and o: "html_files fs' ''time-capsule-public-with-tests.html''
              = html_files json_only ''time-capsule-public-with-tests.html''"
    by auto
  from f have "length (map v_file variants) = 3" by simp
  then have len: "length variants = 3" by simp
  from g f o len show ?thesis
    by (simp add: completed_def json_only_def no_files_def)
qed

end
